theory Spec2Isabelle
  imports Main "HOL-Library.Char_ord" "HOL-Library.List_Lexorder"
begin

section \<open>The index store of letarette (internal/letarette/db.go)\<close>

text \<open>
  The store is an SQLite file with three tables that the indexer core reads and
  writes: \<open>spaces\<close>, \<open>interest\<close> and \<open>docs\<close>. A table is modelled as the list of
  its rows, a row as a record of its columns. Go's \<open>int\<close> and \<open>int64\<close> columns are
  \<open>int\<close> (the store only compares and copies them, no arithmetic is done on them),
  a \<open>protocol.DocumentID\<close> is a \<open>string\<close>, ordered byte by byte as SQLite's default
  collation and Go's string comparison order it.

  Every store call of the source can also fail for reasons outside the program (a
  cancelled context, a disk error). Those failures are not modelled: a statement
  fails here only where the data makes it fail (no such space, a key that is
  already there, a row count that is not one).
\<close>

subsection \<open>Interest states and rows\<close>

text \<open>\<^verbatim>\<open>const ( pending InterestState = iota; requested; served )\<close>\<close>

datatype InterestState = pending | requested | served

text \<open>\<^verbatim>\<open>type Interest struct { DocID protocol.DocumentID; State InterestState }\<close>\<close>

record Interest =
  DocID :: string
  State :: InterestState

text \<open>\<^verbatim>\<open>type InterestListState struct { CreatedAt, LastUpdated int64; LastUpdatedDocID }\<close>\<close>

record InterestListState =
  CreatedAt :: int
  LastUpdated :: int
  LastUpdatedDocID :: string

text \<open>
  Modelled from the spec: \<open>protocol.Document\<close> (package \<open>pkg/protocol\<close> is not
  part of the sources), \<open>Document = {ID, Updated(time), Alive(bool), Text(string)}\<close>.
  The store reads \<open>doc.ID\<close>, \<open>doc.Updated.UnixNano()\<close>, \<open>doc.Alive\<close> and
  \<open>doc.Text\<close>; \<open>Updated\<close> holds the nanoseconds that \<open>UnixNano()\<close> returns.
\<close>

record Document =
  ID :: string
  Updated :: int
  Alive :: bool
  Text :: string

subsection \<open>Tables\<close>

text \<open>
  Modelled from the spec: the schema (the migrations are not part of the sources).
  \<open>spaces(spaceID PK, space UNIQUE, listCreatedAtNanos, lastUpdatedAtNanos,
  lastUpdatedDocID)\<close>, \<open>interest(spaceID, docID, state) PK(spaceID, docID)\<close> and
  \<open>docs(spaceID, docID, updatedNanos, txt, alive) PK(spaceID, docID)\<close>. The columns
  are the ones the statements of db.go name. The surrogate row id of \<open>docs\<close>, which
  only the full-text join of \<open>search\<close> reads, is left out.
\<close>

record spaces_row =
  spaceID :: int
  space :: string
  listCreatedAtNanos :: int
  lastUpdatedAtNanos :: int
  lastUpdatedDocID :: string

record interest_row =
  i_spaceID :: int
  i_docID :: string
  i_state :: InterestState

record docs_row =
  d_spaceID :: int
  d_docID :: string
  d_updatedNanos :: int
  d_txt :: string
  d_alive :: bool

record database =
  spaces :: "spaces_row list"
  interest :: "interest_row list"
  docs :: "docs_row list"

text \<open>
  The errors the modelled statements produce. \<open>NoSuchSpace\<close> is \<open>getSpaceID\<close>'s
  "No such space", \<open>ErrNoRows\<close> is \<open>sql.ErrNoRows\<close>, \<open>ActiveListExists\<close> is "Cannot
  overwrite active interest list", \<open>ConstraintFailed\<close> is SQLite refusing a second
  row with the same primary key, \<open>DocWriteFailed\<close> is "Failed to update index, no
  rows affected", \<open>PositionUpdateFailed\<close> is "Failed to update index position for
  space", \<open>BusFailed\<close> is an error of the message bus (a failed publish, a request
  that timed out), \<open>QueryFailed\<close> is a query of \<open>search\<close> that SQLite refuses.
\<close>

datatype error =
  NoSuchSpace
  | ErrNoRows
  | ActiveListExists
  | ConstraintFailed
  | DocWriteFailed
  | PositionUpdateFailed
  | BusFailed
  | QueryFailed

text \<open>
  The primary key of \<open>interest\<close>, as a predicate on the table. No statement of
  db.go breaks it; it is a hypothesis where a theorem needs it. (That the names of
  \<open>spaces\<close> are unique is written \<open>distinct (map space (spaces db))\<close>.)
\<close>

definition unique_interest :: "interest_row list \<Rightarrow> bool" where
  "unique_interest t = distinct (map (\<lambda>i. (i_spaceID i, i_docID i)) t)"

subsection \<open>getSpaceID, getInterestList, getInterestListState\<close>

text \<open>
  \<^verbatim>\<open>select spaceID from spaces where space = ?\<close>, read with \<open>Get\<close>, which takes the first
  row and turns an empty result into \<open>sql.ErrNoRows\<close>; \<open>getSpaceID\<close> reports that
  as "No such space".
\<close>

definition getSpaceID :: "database \<Rightarrow> string \<Rightarrow> error + int" where
  "getSpaceID db sp =
     (case filter (\<lambda>s. space s = sp) (spaces db) of
        [] \<Rightarrow> Inl NoSuchSpace
      | s # _ \<Rightarrow> Inr (spaceID s))"

text \<open>\<^verbatim>\<open>select docID, state from interest where spaceID = ?\<close>\<close>

definition getInterestList :: "database \<Rightarrow> string \<Rightarrow> error + Interest list" where
  "getInterestList db sp =
     (case getSpaceID db sp of
        Inl e \<Rightarrow> Inl e
      | Inr sid \<Rightarrow>
          Inr (map (\<lambda>i. \<lparr>DocID = i_docID i, State = i_state i\<rparr>)
                 (filter (\<lambda>i. i_spaceID i = sid) (interest db))))"

text \<open>
  \<^verbatim>\<open>select listCreatedAtNanos, lastUpdatedAtNanos, lastUpdatedDocID from spaces
  where space = ?\<close>
\<close>

definition getInterestListState :: "database \<Rightarrow> string \<Rightarrow> error + InterestListState" where
  "getInterestListState db sp =
     (case filter (\<lambda>s. space s = sp) (spaces db) of
        [] \<Rightarrow> Inl ErrNoRows
      | s # _ \<Rightarrow>
          Inr \<lparr>CreatedAt = listCreatedAtNanos s, LastUpdated = lastUpdatedAtNanos s,
               LastUpdatedDocID = lastUpdatedDocID s\<rparr>)"

subsection \<open>clearInterestList, resetRequested, setInterestState\<close>

text \<open>
  Each is \<open>getSpaceID\<close> followed by one statement on the write connection. The
  result is the error, if any, and the database after the call.
  \<^verbatim>\<open>delete from interest where spaceID = ?\<close>
\<close>

definition clearInterestList :: "database \<Rightarrow> string \<Rightarrow> error option \<times> database" where
  "clearInterestList db sp =
     (case getSpaceID db sp of
        Inl e \<Rightarrow> (Some e, db)
      | Inr sid \<Rightarrow>
          (None, db\<lparr>interest := filter (\<lambda>i. i_spaceID i \<noteq> sid) (interest db)\<rparr>))"

text \<open>
  \<^verbatim>\<open>update interest set state = ? where state = ? and spaceID = ?\<close> with
  \<open>pending, requested, spaceID\<close>.
\<close>

definition resetRequested :: "database \<Rightarrow> string \<Rightarrow> error option \<times> database" where
  "resetRequested db sp =
     (case getSpaceID db sp of
        Inl e \<Rightarrow> (Some e, db)
      | Inr sid \<Rightarrow>
          (None, db\<lparr>interest :=
             map (\<lambda>i. if i_state i = requested \<and> i_spaceID i = sid
                       then i\<lparr>i_state := pending\<rparr> else i)
               (interest db)\<rparr>))"

text \<open>\<^verbatim>\<open>update interest set state = ? where spaceID=? and docID=?\<close>\<close>

definition update_interest_state ::
  "interest_row list \<Rightarrow> int \<Rightarrow> string \<Rightarrow> InterestState \<Rightarrow> interest_row list" where
  "update_interest_state t sid d st =
     map (\<lambda>i. if i_spaceID i = sid \<and> i_docID i = d then i\<lparr>i_state := st\<rparr> else i) t"

definition setInterestState ::
  "database \<Rightarrow> string \<Rightarrow> string \<Rightarrow> InterestState \<Rightarrow> error option \<times> database" where
  "setInterestState db sp d st =
     (case getSpaceID db sp of
        Inl e \<Rightarrow> (Some e, db)
      | Inr sid \<Rightarrow> (None, db\<lparr>interest := update_interest_state (interest db) sid d st\<rparr>))"

subsection \<open>addDocumentUpdates\<close>

text \<open>
  \<^verbatim>\<open>replace into docs (spaceID, docID, updatedNanos, txt, alive) values (?, ?, ?, ?, ?)\<close>:
  the rows with the new row's primary key go, the new row is added.
\<close>

definition replace_into_docs :: "docs_row list \<Rightarrow> docs_row \<Rightarrow> docs_row list" where
  "replace_into_docs t r =
     filter (\<lambda>x. \<not> (d_spaceID x = d_spaceID r \<and> d_docID x = d_docID r)) t @ [r]"

text \<open>
  The values the loop binds for one document: \<open>txt\<close> is \<open>doc.Text\<close> only when the
  document is alive.
\<close>

definition docs_values :: "int \<Rightarrow> Document \<Rightarrow> docs_row" where
  "docs_values sid doc =
     \<lparr>d_spaceID = sid, d_docID = ID doc, d_updatedNanos = Updated doc,
      d_txt = (if Alive doc then Text doc else []), d_alive = Alive doc\<rparr>"

text \<open>
  \<open>res.RowsAffected()\<close> of the \<open>replace\<close> statement is what the driver reports, so
  it is a parameter of the model: a function of the table the statement ran on and
  of the row it wrote. SQLite reports one row for a \<open>replace\<close> of one row.
\<close>

type_synonym rows_affected = "docs_row list \<Rightarrow> docs_row \<Rightarrow> nat"

definition sqlite_rows_affected :: rows_affected where
  "sqlite_rows_affected t r = 1"

text \<open>
  The loop over the batch, inside the transaction \<open>tx\<close>: the upsert, the check of
  the row count, then the interest row of the document set to \<open>served\<close> (its row
  count is not read).
\<close>

fun addDocumentUpdates_loop ::
  "rows_affected \<Rightarrow> int \<Rightarrow> Document list \<Rightarrow> database \<Rightarrow> error + database" where
  "addDocumentUpdates_loop ra sid [] tx = Inr tx"
| "addDocumentUpdates_loop ra sid (doc # rest) tx =
     (let row = docs_values sid doc;
          updatedRows = ra (docs tx) row
      in if updatedRows \<noteq> 1 then Inl DocWriteFailed
         else addDocumentUpdates_loop ra sid rest
                (tx\<lparr>docs := replace_into_docs (docs tx) row,
                    interest := update_interest_state (interest tx) sid (ID doc) served\<rparr>))"

text \<open>
  \<open>getSpaceID\<close>, then the transaction. Every error return leaves \<open>tx\<close> set, so the
  deferred function rolls back and the database stays as it was; only the return
  after \<open>tx.Commit()\<close> keeps what the loop wrote.
\<close>

definition addDocumentUpdates ::
  "rows_affected \<Rightarrow> database \<Rightarrow> string \<Rightarrow> Document list \<Rightarrow> error option \<times> database" where
  "addDocumentUpdates ra db sp ds =
     (case getSpaceID db sp of
        Inl e \<Rightarrow> (Some e, db)
      | Inr sid \<Rightarrow>
          (case addDocumentUpdates_loop ra sid ds db of
             Inl e \<Rightarrow> (Some e, db)
           | Inr tx \<Rightarrow> (None, tx)))"

subsection \<open>setInterestList\<close>

text \<open>
  \<^verbatim>\<open>insert into interest (spaceID, docID, state) values(?, ?, ?)\<close> for each
  \<open>docID\<close> of the list, with \<open>pending\<close>. The primary key of \<open>interest\<close> makes the
  statement fail when the table already holds a row of that space and document;
  the loop returns that error.
\<close>

fun insert_interest ::
  "int \<Rightarrow> string list \<Rightarrow> interest_row list \<Rightarrow> error + interest_row list" where
  "insert_interest sid [] t = Inr t"
| "insert_interest sid (d # rest) t =
     (if (sid, d) \<in> set (map (\<lambda>i. (i_spaceID i, i_docID i)) t) then Inl ConstraintFailed
      else insert_interest sid rest
             (t @ [\<lparr>i_spaceID = sid, i_docID = d, i_state = pending\<rparr>]))"

text \<open>
  One transaction: the space's id (\<open>sql.ErrNoRows\<close> when the space is not there),
  the count of rows that are not \<open>served\<close>, the delete, the inserts, and
  \<^verbatim>\<open>update spaces set listCreatedAtNanos = :now where spaceID = :spaceID\<close>, where
  \<open>now\<close> is \<open>time.Now().UnixNano()\<close>, a parameter here. Only the return after
  \<open>tx.Commit()\<close> changes the database. (On the "Cannot overwrite" return and on a
  failed insert the deferred function sees \<open>err == nil\<close> and does not roll back;
  the transaction stays open and what it wrote is never committed.)
\<close>

definition setInterestList ::
  "int \<Rightarrow> database \<Rightarrow> string \<Rightarrow> string list \<Rightarrow> error option \<times> database" where
  "setInterestList now db sp list =
     (case filter (\<lambda>s. space s = sp) (spaces db) of
        [] \<Rightarrow> (Some ErrNoRows, db)
      | s # _ \<Rightarrow>
          (let sid = spaceID s;
               interestCount =
                 length (filter (\<lambda>i. i_spaceID i = sid \<and> i_state i \<noteq> served) (interest db))
           in if interestCount \<noteq> 0 then (Some ActiveListExists, db)
              else
                (case insert_interest sid list
                        (filter (\<lambda>i. i_spaceID i \<noteq> sid) (interest db)) of
                   Inl e \<Rightarrow> (Some e, db)
                 | Inr t \<Rightarrow>
                     (None, db\<lparr>interest := t,
                               spaces :=
                                 map (\<lambda>r. if spaceID r = sid
                                           then r\<lparr>listCreatedAtNanos := now\<rparr> else r)
                                   (spaces db)\<rparr>))))"

subsection \<open>commitInterestList\<close>

text \<open>
  The rows of the query
  \<^verbatim>\<open>with listState as (select listCreatedAtNanos from spaces where space = ?)
  select docs.updatedNanos, docs.docID
  from interest left join docs using(docID) cross join listState
  where interest.state = ? and docs.updatedNanos < listState.listCreatedAtNanos\<close>
  with \<open>served\<close>. The join is on \<open>docID\<close> alone and nothing restricts \<open>interest\<close> or
  \<open>docs\<close> to the space. An interest row without a \<open>docs\<close> row joins a row of nulls,
  which the comparison drops.
\<close>

definition commit_rows :: "database \<Rightarrow> string \<Rightarrow> (int \<times> string) list" where
  "commit_rows db sp =
     [(d_updatedNanos d, d_docID d).
        i \<leftarrow> interest db, d \<leftarrow> docs db,
        c \<leftarrow> map listCreatedAtNanos (filter (\<lambda>s. space s = sp) (spaces db)),
        d_docID d = i_docID i, i_state i = served, d_updatedNanos d < c]"

text \<open>
  \<^verbatim>\<open>order by docs.updatedNanos desc, docs.docID limit 1\<close>: \<open>sorts_before a b\<close> when
  \<open>a\<close> does not come after \<open>b\<close> in that order; \<open>order_limit_1\<close> is the first row of
  the ordered result, \<open>None\<close> when there is no row.
\<close>

definition sorts_before :: "int \<times> string \<Rightarrow> int \<times> string \<Rightarrow> bool" where
  "sorts_before a b = (fst b < fst a \<or> (fst a = fst b \<and> snd a \<le> snd b))"

fun order_limit_1 :: "(int \<times> string) list \<Rightarrow> (int \<times> string) option" where
  "order_limit_1 [] = None"
| "order_limit_1 (x # xs) =
     (case order_limit_1 xs of
        None \<Rightarrow> Some x
      | Some y \<Rightarrow> Some (if sorts_before x y then x else y))"

text \<open>
  No row is \<open>sql.ErrNoRows\<close>: \<open>return nil\<close>. Otherwise
  \<^verbatim>\<open>update spaces set lastUpdatedAtNanos = ?, lastUpdatedDocID = ? where space = ?\<close>,
  whose row count is the number of rows of that name; a count other than one is
  an error, and the deferred function rolls back.
\<close>

definition commitInterestList :: "database \<Rightarrow> string \<Rightarrow> error option \<times> database" where
  "commitInterestList db sp =
     (case order_limit_1 (commit_rows db sp) of
        None \<Rightarrow> (None, db)
      | Some indexPosition \<Rightarrow>
          (let count = length (filter (\<lambda>s. space s = sp) (spaces db))
           in if count \<noteq> 1 then (Some PositionUpdateFailed, db)
              else
                (None, db\<lparr>spaces :=
                   map (\<lambda>s. if space s = sp
                             then s\<lparr>lastUpdatedAtNanos := fst indexPosition,
                                    lastUpdatedDocID := snd indexPosition\<rparr>
                             else s)
                     (spaces db)\<rparr>)))"

subsection \<open>search\<close>

text \<open>
  The statement of \<open>search\<close>:
  \<^verbatim>\<open>select spaces.space as space, docs.docID as id, replace(snippet(fts, 0, :left,
  :right, :ellipsis, 8), X'0A', " ") as snippet, rank
  from fts join docs on fts.rowid = docs.id
  left join spaces on docs.spaceID = spaces.spaceID
  where fts match '"%s"' and docs.alive and spaces.space in (?)
  order by rank asc limit :limit offset :offset\<close>
  What is outside the sources is a parameter, gathered in \<open>engine\<close>:
  \<^item> \<open>fts_match\<close>: the rows that the full-text index matches for a match string,
    \<open>None\<close> when it refuses the string; \<open>fts_rank\<close>: their rank.
  \<^item> \<open>text_as_limit\<close>: the integer that SQLite reads in a text given as \<open>limit\<close>
    or as \<open>offset\<close>, \<open>None\<close> when it reads none (the statement then fails).
  \<^item> \<open>rewritten\<close>: what SQLite answers when the phrase changes the text of the
    statement.
\<close>

record engine =
  fts_match :: "string \<Rightarrow> (docs_row \<Rightarrow> bool) option"
  fts_rank :: "string \<Rightarrow> docs_row \<Rightarrow> int"
  text_as_limit :: "string \<Rightarrow> int option"
  rewritten ::
    "database \<Rightarrow> string \<Rightarrow> string list \<Rightarrow> nat \<Rightarrow> nat \<Rightarrow> error + (string \<times> string) list"




section \<open>The update cycle of the indexer (runUpdateCycle and what it calls)\<close>

text \<open>
  Modelled from the spec: the configuration record (its declaration is not part
  of the sources). \<open>Topic\<close> is \<open>cfg.Nats.Topic\<close>; the others are the options of
  \<open>cfg.Index\<close> that the cycle reads. \<open>ChunkSize\<close> and \<open>MaxOutstanding\<close> are unsigned
  counts (the source converts \<open>MaxOutstanding\<close> with \<open>int(...)\<close>), the two waits
  are durations in nanoseconds.
\<close>

record Config =
  Topic :: string
  ChunkSize :: nat
  MaxOutstanding :: nat
  MaxInterestWait :: int
  MaxDocumentWait :: int

text \<open>
  Modelled from the spec: the messages of \<open>pkg/protocol\<close> that the cycle sends
  and receives (\<open>{space, wanted}\<close>, \<open>{space, fromTime, afterDocument, limit}\<close> and
  \<open>IndexUpdate {space, updates}\<close>), with the fields the source sets and reads.
  \<open>FromTime\<close> is \<open>time.Unix(0, LastUpdated)\<close>, kept as its nanoseconds.
\<close>

record DocumentRequest =
  dr_Space :: string
  Wanted :: "string list"

record IndexUpdateRequest =
  rq_Space :: string
  FromTime :: int
  AfterDocument :: string
  Limit :: nat

record IndexUpdate =
  iu_Space :: string
  Updates :: "string list"

text \<open>
  The calls the cycle makes that write to the store or go out on the bus, in the
  order it makes them. \<open>Request\<close> carries the deadline of its context.
\<close>

datatype call =
  SetInterestState string string InterestState
  | ResetRequested string
  | CommitInterestList string
  | SetInterestList string "string list"
  | Publish string DocumentRequest
  | Request string IndexUpdateRequest int

text \<open>
  What a cycle works on: the store, the package variable \<open>lastDocumentRequest\<close>
  (a time, in nanoseconds) and the calls made so far.
\<close>

record indexer =
  store :: database
  lastDocumentRequest :: int
  calls :: "call list"

text \<open>
  What one cycle gets from outside: the result of \<open>conn.Publish\<close>, the result of
  \<open>conn.RequestWithContext\<close> (an error, or the decoded reply), and the three
  readings of \<open>time.Now()\<close>: after the document request, at the stall check, and
  inside \<open>setInterestList\<close>.
\<close>

record cycle_env =
  publish_result :: "error option"
  request_result :: "error + IndexUpdate"
  now_requested :: int
  now_checked :: int
  now_listed :: int

subsection \<open>requestDocuments\<close>

text \<open>
  The loop of \<open>requestDocuments\<close>: each wanted document is set to \<open>requested\<close>, and
  the first error ends the function.
\<close>

fun request_each :: "indexer \<Rightarrow> string \<Rightarrow> string list \<Rightarrow> error option \<times> indexer" where
  "request_each idx sp [] = (None, idx)"
| "request_each idx sp (docID # rest) =
     (case setInterestState (store idx) sp docID requested of
        (Some e, db') \<Rightarrow>
          (Some e, idx\<lparr>store := db', calls := calls idx @ [SetInterestState sp docID requested]\<rparr>)
      | (None, db') \<Rightarrow>
          request_each
            (idx\<lparr>store := db', calls := calls idx @ [SetInterestState sp docID requested]\<rparr>)
            sp rest)"

definition requestDocuments ::
  "Config \<Rightarrow> cycle_env \<Rightarrow> indexer \<Rightarrow> string \<Rightarrow> string list \<Rightarrow> error option \<times> indexer" where
  "requestDocuments cfg env idx sp wanted =
     (case request_each idx sp wanted of
        (Some e, idx') \<Rightarrow> (Some e, idx')
      | (None, idx') \<Rightarrow>
          (publish_result env,
           idx'\<lparr>calls := calls idx' @
              [Publish (Topic cfg @ ''.document.request'')
                 \<lparr>dr_Space = sp, Wanted = wanted\<rparr>]\<rparr>))"

subsection \<open>commitFetched, requestNextChunk\<close>

definition commitFetched :: "indexer \<Rightarrow> string \<Rightarrow> error option \<times> indexer" where
  "commitFetched idx sp =
     (case commitInterestList (store idx) sp of
        (r, db') \<Rightarrow> (r, idx\<lparr>store := db', calls := calls idx @ [CommitInterestList sp]\<rparr>))"

text \<open>
  \<open>setInterestList\<close> is called with \<open>update.Space\<close> and \<open>update.Updates\<close>, the
  fields of the reply.
\<close>

definition requestNextChunk ::
  "Config \<Rightarrow> cycle_env \<Rightarrow> indexer \<Rightarrow> string \<Rightarrow> error option \<times> indexer" where
  "requestNextChunk cfg env idx sp =
     (case getInterestListState (store idx) sp of
        Inl e \<Rightarrow> (Some e, idx)
      | Inr state \<Rightarrow>
          (let updateRequest =
                 \<lparr>rq_Space = sp, FromTime = LastUpdated state,
                  AfterDocument = LastUpdatedDocID state, Limit = ChunkSize cfg\<rparr>;
               idx1 = idx\<lparr>calls := calls idx @
                        [Request (Topic cfg @ ''.index.request'') updateRequest
                           (MaxInterestWait cfg)]\<rparr>
           in case request_result env of
                Inl e \<Rightarrow> (Some e, idx1)
              | Inr update \<Rightarrow>
                  (case setInterestList (now_listed env) (store idx1)
                          (iu_Space update) (Updates update) of
                     (r, db') \<Rightarrow>
                       (r, idx1\<lparr>store := db',
                                calls := calls idx1 @
                                  [SetInterestList (iu_Space update) (Updates update)]\<rparr>))))"

subsection \<open>runUpdateCycle\<close>

text \<open>
  The counts of the first loop of \<open>runUpdateCycle\<close>, and \<open>pendingIDs\<close>: the
  documents of the pending rows, in the order of the interest list.
\<close>

definition count_state :: "InterestState \<Rightarrow> Interest list \<Rightarrow> int" where
  "count_state st interests = int (length (filter (\<lambda>i. State i = st) interests))"

definition pendingIDs :: "Interest list \<Rightarrow> string list" where
  "pendingIDs interests = map DocID (filter (\<lambda>i. State i = pending) interests)"

definition docsToRequest :: "Config \<Rightarrow> Interest list \<Rightarrow> int" where
  "docsToRequest cfg interests =
     min (count_state pending interests)
         (int (MaxOutstanding cfg) - count_state requested interests)"

text \<open>
  The request step: when \<open>docsToRequest > 0\<close> the first \<open>docsToRequest\<close> pending
  documents are requested; only when that succeeds is \<open>lastDocumentRequest\<close> set
  and \<open>numRequested\<close> increased. The result is the state after the step and
  \<open>numRequested\<close>.
\<close>

definition request_step ::
  "Config \<Rightarrow> cycle_env \<Rightarrow> indexer \<Rightarrow> string \<Rightarrow> Interest list \<Rightarrow> indexer \<times> int" where
  "request_step cfg env idx sp interests =
     (let numRequested = count_state requested interests;
          n = docsToRequest cfg interests
      in if 0 < n then
           (case requestDocuments cfg env idx sp (take (nat n) (pendingIDs interests)) of
              (Some e, idx') \<Rightarrow> (idx', numRequested)
            | (None, idx') \<Rightarrow>
                (idx'\<lparr>lastDocumentRequest := now_requested env\<rparr>, numRequested + n))
         else (idx, numRequested))"

text \<open>
  The whole cycle; the second component is \<open>total\<close>. \<open>numPending\<close> is the count of
  the first loop, which the request step does not change. The stall check is
  \<open>timeout != 0 && time.Now().After(lastDocumentRequest.Add(timeout))\<close>.
\<close>

definition runUpdateCycle ::
  "Config \<Rightarrow> cycle_env \<Rightarrow> indexer \<Rightarrow> string \<Rightarrow> indexer \<times> nat" where
  "runUpdateCycle cfg env idx sp =
     (case getInterestList (store idx) sp of
        Inl e \<Rightarrow> (idx, 0)
      | Inr interests \<Rightarrow>
          (let total = length interests;
               numPending = count_state pending interests;
               (idx1, numRequested) = request_step cfg env idx sp interests;
               allServed = (numPending = 0 \<and> numRequested = 0)
           in if allServed then
                (case commitFetched idx1 sp of
                   (Some e, idx2) \<Rightarrow> (idx2, total)
                 | (None, idx2) \<Rightarrow> (snd (requestNextChunk cfg env idx2 sp), total))
              else
                (let timeout = MaxDocumentWait cfg
                 in if timeout \<noteq> 0 \<and> lastDocumentRequest idx1 + timeout < now_checked env
                    then (idx1\<lparr>store := snd (resetRequested (store idx1) sp),
                               calls := calls idx1 @ [ResetRequested sp]\<rparr>, total)
                    else (idx1, total))))"

section \<open>Vocabulary of the statements\<close>

subsection \<open>Batches of documents\<close>

text \<open>
  What a committed batch leaves behind, as the spec words it: every document
  upserted in turn, every document's interest row set to \<open>served\<close>; and the
  condition under which the batch is committed: each upsert, run on the table the
  earlier ones left, reported one row.
\<close>

definition upsert_all :: "int \<Rightarrow> docs_row list \<Rightarrow> Document list \<Rightarrow> docs_row list" where
  "upsert_all sid t ds = foldl replace_into_docs t (map (docs_values sid) ds)"

definition serve_all :: "int \<Rightarrow> interest_row list \<Rightarrow> Document list \<Rightarrow> interest_row list" where
  "serve_all sid t ds = foldl (\<lambda>t d. update_interest_state t sid (ID d) served) t ds"

fun all_upserted_one :: "rows_affected \<Rightarrow> int \<Rightarrow> docs_row list \<Rightarrow> Document list \<Rightarrow> bool" where
  "all_upserted_one ra sid t [] = True"
| "all_upserted_one ra sid t (doc # rest) =
     (ra t (docs_values sid doc) = 1 \<and>
      all_upserted_one ra sid (replace_into_docs t (docs_values sid doc)) rest)"

definition batch_key :: "int \<Rightarrow> Document list \<Rightarrow> docs_row \<Rightarrow> bool" where
  "batch_key sid ds x = (d_spaceID x = sid \<and> d_docID x \<in> ID ` set ds)"

subsection \<open>Example data\<close>

text \<open>
  One space \<open>wp\<close> with one requested document and one stored document, and the
  documents of the examples.
\<close>

definition db_wp :: database where
  "db_wp =
     \<lparr>spaces = [\<lparr>spaceID = 1, space = ''wp'', listCreatedAtNanos = 100,
                 lastUpdatedAtNanos = 0, lastUpdatedDocID = []\<rparr>],
      interest = [\<lparr>i_spaceID = 1, i_docID = ''a'', i_state = requested\<rparr>],
      docs = [\<lparr>d_spaceID = 1, d_docID = ''b'', d_updatedNanos = 5, d_txt = ''old'',
               d_alive = True\<rparr>]\<rparr>"

definition doc_a :: Document where
  "doc_a = \<lparr>ID = ''a'', Updated = 50, Alive = True, Text = ''hello''\<rparr>"

definition doc_b :: Document where
  "doc_b = \<lparr>ID = ''b'', Updated = 60, Alive = False, Text = ''ignored''\<rparr>"

definition doc_c :: Document where
  "doc_c = \<lparr>ID = ''c'', Updated = 70, Alive = True, Text = ''unasked''\<rparr>"



text \<open>A driver that reports no row for document \<open>b\<close> and one row otherwise.\<close>

definition no_row_for_b :: rows_affected where
  "no_row_for_b t r = (if d_docID r = ''b'' then 0 else 1)"

text \<open>
  The chunk of \<open>wp\<close> fully served, and the two lists of the examples of
  \<open>setInterestList\<close>.
\<close>

definition db_done :: database where
  "db_done =
     \<lparr>spaces = [\<lparr>spaceID = 1, space = ''wp'', listCreatedAtNanos = 100,
                 lastUpdatedAtNanos = 0, lastUpdatedDocID = []\<rparr>],
      interest = [\<lparr>i_spaceID = 1, i_docID = ''a'', i_state = served\<rparr>],
      docs = [\<lparr>d_spaceID = 1, d_docID = ''a'', d_updatedNanos = 50, d_txt = ''hello'',
               d_alive = True\<rparr>]\<rparr>"

subsection \<open>The index position\<close>

text \<open>
  The order of index positions, as the spec words it: the timestamp first, then
  the document id by byte comparison. \<open>cursor db sp\<close> is the position of the rows
  of \<open>spaces\<close> named \<open>sp\<close> (one row, when the space is registered).
\<close>

definition position_le :: "int \<times> string \<Rightarrow> int \<times> string \<Rightarrow> bool" where
  "position_le a b = (fst a < fst b \<or> (fst a = fst b \<and> snd a \<le> snd b))"

definition cursor :: "database \<Rightarrow> string \<Rightarrow> (int \<times> string) list" where
  "cursor db sp =
     map (\<lambda>s. (lastUpdatedAtNanos s, lastUpdatedDocID s))
       (filter (\<lambda>s. space s = sp) (spaces db))"

text \<open>
  The positions the spec lets a commit of \<open>sp\<close> choose from: the documents of the
  served interests of that space whose \<open>updatedNanos\<close> is below the space's
  \<open>listCreatedAtNanos\<close>.
\<close>

definition served_positions :: "database \<Rightarrow> string \<Rightarrow> (int \<times> string) list" where
  "served_positions db sp =
     [(d_updatedNanos d, d_docID d).
        s \<leftarrow> filter (\<lambda>s. space s = sp) (spaces db),
        i \<leftarrow> interest db, d \<leftarrow> docs db,
        i_spaceID i = spaceID s, d_spaceID d = spaceID s, d_docID d = i_docID i,
        i_state i = served, d_updatedNanos d < listCreatedAtNanos s]"

text \<open>
  Two spaces: \<open>wp\<close> has no interest row; \<open>news\<close> has one served document.
\<close>

definition db_two :: database where
  "db_two =
     \<lparr>spaces = [\<lparr>spaceID = 1, space = ''wp'', listCreatedAtNanos = 100,
                 lastUpdatedAtNanos = 10, lastUpdatedDocID = ''k''\<rparr>,
                \<lparr>spaceID = 2, space = ''news'', listCreatedAtNanos = 100,
                 lastUpdatedAtNanos = 0, lastUpdatedDocID = []\<rparr>],
      interest = [\<lparr>i_spaceID = 2, i_docID = ''x'', i_state = served\<rparr>],
      docs = [\<lparr>d_spaceID = 2, d_docID = ''x'', d_updatedNanos = 50, d_txt = ''text'',
               d_alive = True\<rparr>]\<rparr>"

text \<open>One space whose two served documents carry the same timestamp.\<close>

definition db_tie :: database where
  "db_tie =
     \<lparr>spaces = [\<lparr>spaceID = 1, space = ''wp'', listCreatedAtNanos = 100,
                 lastUpdatedAtNanos = 0, lastUpdatedDocID = []\<rparr>],
      interest = [\<lparr>i_spaceID = 1, i_docID = ''a'', i_state = served\<rparr>,
                  \<lparr>i_spaceID = 1, i_docID = ''b'', i_state = served\<rparr>],
      docs = [\<lparr>d_spaceID = 1, d_docID = ''a'', d_updatedNanos = 50, d_txt = ''one'',
               d_alive = True\<rparr>,
              \<lparr>d_spaceID = 1, d_docID = ''b'', d_updatedNanos = 50, d_txt = ''two'',
               d_alive = True\<rparr>]\<rparr>"








subsection \<open>Observation points of the indexer\<close>

text \<open>
  The number of interest rows of the space with id \<open>sid\<close> that are \<open>requested\<close>.
\<close>

definition count_requested :: "database \<Rightarrow> int \<Rightarrow> nat" where
  "count_requested db sid =
     length (filter (\<lambda>i. i_spaceID i = sid \<and> i_state i = requested) (interest db))"

text \<open>
  The store between two calls of the indexer, with what the cycle in progress
  still has to do: the space of the cycle and the documents that
  \<open>requestDocuments\<close> has not yet set to \<open>requested\<close>. \<open>step\<close> is one store call of
  one of the two goroutines: the cycle (\<open>plan\<close>: the interest list is read and the
  documents to request are chosen; \<open>request\<close>: the next of them is set to
  \<open>requested\<close>; \<open>stop\<close>: the rest is dropped, when the loop ends or returns early;
  then \<open>reset\<close>, or \<open>commit\<close> and \<open>newlist\<close>) and the sink (\<open>sink\<close>, at any moment,
  with any batch for any space). \<open>clear\<close> is the call of \<open>StartIndexer\<close>. The calls
  are not tied to the order in which one cycle makes them, so every interleaving
  of the two is a sequence of steps.
\<close>

type_synonym observation = "database \<times> string \<times> string list"

inductive step :: "Config \<Rightarrow> rows_affected \<Rightarrow> observation \<Rightarrow> observation \<Rightarrow> bool"
  for cfg :: Config and ra :: rows_affected where
  plan:
    "getInterestList db sp = Inr interests \<Longrightarrow> 0 < docsToRequest cfg interests \<Longrightarrow>
     step cfg ra (db, sp0, [])
       (db, sp, take (nat (docsToRequest cfg interests)) (pendingIDs interests))"
| request:
    "setInterestState db sp d requested = (e, db') \<Longrightarrow>
     step cfg ra (db, sp, d # todo) (db', sp, todo)"
| stop:
    "step cfg ra (db, sp, todo) (db, sp, [])"
| reset:
    "resetRequested db sp' = (e, db') \<Longrightarrow> step cfg ra (db, sp, todo) (db', sp, todo)"
| commit:
    "commitInterestList db sp' = (e, db') \<Longrightarrow> step cfg ra (db, sp, todo) (db', sp, todo)"
| newlist:
    "setInterestList now db sp' list = (e, db') \<Longrightarrow>
     step cfg ra (db, sp, todo) (db', sp, todo)"
| sink:
    "addDocumentUpdates ra db sp' ds = (e, db') \<Longrightarrow>
     step cfg ra (db, sp, todo) (db', sp, todo)"
| clear:
    "clearInterestList db sp' = (e, db') \<Longrightarrow> step cfg ra (db, sp, todo) (db', sp, todo)"

text \<open>
  What the bound rests on, at an observation point: the primary key of \<open>interest\<close>
  holds, and the requested rows of the space \<open>sid\<close> together with the documents the
  cycle is about to request there do not exceed \<open>MaxOutstanding\<close>.
\<close>

definition within_bound :: "Config \<Rightarrow> int \<Rightarrow> observation \<Rightarrow> bool" where
  "within_bound cfg sid ob =
     (case ob of (db, sp, todo) \<Rightarrow>
        unique_interest (interest db) \<and>
        count_requested db sid + (if getSpaceID db sp = Inr sid then length todo else 0)
          \<le> MaxOutstanding cfg)"

subsection \<open>Calls of a cycle\<close>

definition is_reset :: "call \<Rightarrow> bool" where
  "is_reset c = (case c of ResetRequested s \<Rightarrow> True | _ \<Rightarrow> False)"

definition request_calls :: "string \<Rightarrow> string list \<Rightarrow> call list" where
  "request_calls sp wanted = map (\<lambda>d. SetInterestState sp d requested) wanted"

text \<open>The interest table after each wanted document was set to \<open>requested\<close>.\<close>

definition request_all :: "int \<Rightarrow> interest_row list \<Rightarrow> string list \<Rightarrow> interest_row list" where
  "request_all sid t wanted = foldl (\<lambda>t d. update_interest_state t sid d requested) t wanted"

text \<open>
  The configuration and the surroundings of the examples: two documents
  outstanding at most, a stall threshold of 1000; a publish that succeeds, a reply
  that names the space \<open>news\<close>.
\<close>

definition cfg_two :: Config where
  "cfg_two = \<lparr>Topic = ''leta'', ChunkSize = 3, MaxOutstanding = 2,
              MaxInterestWait = 5000, MaxDocumentWait = 1000\<rparr>"

definition env_news :: cycle_env where
  "env_news = \<lparr>publish_result = None,
               request_result = Inr \<lparr>iu_Space = ''news'', Updates = [''n'']\<rparr>,
               now_requested = 10000, now_checked = 10001, now_listed = 10002\<rparr>"

text \<open>
  A chunk \<open>a, b, c\<close> of \<open>wp\<close>, all pending (scenario 2 of the spec), and an indexer
  that made its last document request at 5000.
\<close>

definition db_chunk :: database where
  "db_chunk =
     \<lparr>spaces = [\<lparr>spaceID = 1, space = ''wp'', listCreatedAtNanos = 100,
                 lastUpdatedAtNanos = 0, lastUpdatedDocID = []\<rparr>],
      interest = [\<lparr>i_spaceID = 1, i_docID = ''a'', i_state = pending\<rparr>,
                  \<lparr>i_spaceID = 1, i_docID = ''b'', i_state = pending\<rparr>,
                  \<lparr>i_spaceID = 1, i_docID = ''c'', i_state = pending\<rparr>],
      docs = []\<rparr>"

definition idx_chunk :: indexer where
  "idx_chunk = \<lparr>store = db_chunk, lastDocumentRequest = 5000, calls = []\<rparr>"

text \<open>
  The same chunk with \<open>a\<close> and \<open>b\<close> requested and \<open>c\<close> served, looked at long after
  the last document request.
\<close>

definition db_waiting :: database where
  "db_waiting =
     \<lparr>spaces = [\<lparr>spaceID = 1, space = ''wp'', listCreatedAtNanos = 100,
                 lastUpdatedAtNanos = 0, lastUpdatedDocID = []\<rparr>,
                \<lparr>spaceID = 2, space = ''news'', listCreatedAtNanos = 100,
                 lastUpdatedAtNanos = 0, lastUpdatedDocID = []\<rparr>],
      interest = [\<lparr>i_spaceID = 1, i_docID = ''a'', i_state = requested\<rparr>,
                  \<lparr>i_spaceID = 1, i_docID = ''b'', i_state = requested\<rparr>,
                  \<lparr>i_spaceID = 1, i_docID = ''c'', i_state = served\<rparr>,
                  \<lparr>i_spaceID = 2, i_docID = ''a'', i_state = requested\<rparr>],
      docs = []\<rparr>"

definition idx_waiting :: indexer where
  "idx_waiting = \<lparr>store = db_waiting, lastDocumentRequest = 5000, calls = []\<rparr>"

text \<open>Two registered spaces with nothing to do, and an indexer on them.\<close>

definition db_idle :: database where
  "db_idle =
     \<lparr>spaces = [\<lparr>spaceID = 1, space = ''wp'', listCreatedAtNanos = 100,
                 lastUpdatedAtNanos = 10, lastUpdatedDocID = ''k''\<rparr>,
                \<lparr>spaceID = 2, space = ''news'', listCreatedAtNanos = 100,
                 lastUpdatedAtNanos = 0, lastUpdatedDocID = []\<rparr>],
      interest = [], docs = []\<rparr>"

definition idx_idle :: indexer where
  "idx_idle = \<lparr>store = db_idle, lastDocumentRequest = 5000, calls = []\<rparr>"

section \<open>addDocumentUpdates\<close>

subsection \<open>The loop as two folds\<close>

lemma upsert_all_simps:
  "upsert_all sid t [] = t"
  "upsert_all sid t (d # ds) = upsert_all sid (replace_into_docs t (docs_values sid d)) ds"
  "upsert_all sid t (ds @ [d]) = replace_into_docs (upsert_all sid t ds) (docs_values sid d)"
  by (simp_all add: upsert_all_def)

lemma serve_all_simps:
  "serve_all sid t [] = t"
  "serve_all sid t (d # ds) = serve_all sid (update_interest_state t sid (ID d) served) ds"
  by (simp_all add: serve_all_def)

lemma docs_values_sel [simp]:
  "d_spaceID (docs_values sid d) = sid"
  "d_docID (docs_values sid d) = ID d"
  "d_updatedNanos (docs_values sid d) = Updated d"
  "d_alive (docs_values sid d) = Alive d"
  "d_txt (docs_values sid d) = (if Alive d then Text d else [])"
  by (simp_all add: docs_values_def)

lemma addDocumentUpdates_loop_folds:
  "addDocumentUpdates_loop ra sid ds tx =
     (if all_upserted_one ra sid (docs tx) ds
      then Inr (tx\<lparr>docs := upsert_all sid (docs tx) ds,
                   interest := serve_all sid (interest tx) ds\<rparr>)
      else Inl DocWriteFailed)"
  by (induction ds arbitrary: tx) (simp_all add: upsert_all_simps serve_all_simps Let_def)

lemma addDocumentUpdates_folds:
  "addDocumentUpdates ra db sp ds =
     (case getSpaceID db sp of
        Inl e \<Rightarrow> (Some e, db)
      | Inr sid \<Rightarrow>
          if all_upserted_one ra sid (docs db) ds
          then (None, db\<lparr>docs := upsert_all sid (docs db) ds,
                         interest := serve_all sid (interest db) ds\<rparr>)
          else (Some DocWriteFailed, db))"
  by (simp add: addDocumentUpdates_def addDocumentUpdates_loop_folds split: sum.splits)

lemma addDocumentUpdates_committed:
  assumes "addDocumentUpdates ra db sp ds = (None, db')"
  obtains sid where "getSpaceID db sp = Inr sid"
    and "all_upserted_one ra sid (docs db) ds"
    and "db' = db\<lparr>docs := upsert_all sid (docs db) ds,
                   interest := serve_all sid (interest db) ds\<rparr>"
  using assms by (auto simp: addDocumentUpdates_folds split: sum.splits if_splits)

subsection \<open>What the upserts leave in \<open>docs\<close>\<close>

text \<open>
  The rows whose key is not a key of the batch stay, in their order; the rows of
  the batch follow them.
\<close>

lemma upsert_all_split:
  "upsert_all sid t ds = filter (\<lambda>x. \<not> batch_key sid ds x) t @ upsert_all sid [] ds"
proof (induction ds rule: rev_induct)
  case Nil
  show ?case by (simp add: upsert_all_simps batch_key_def)
next
  case (snoc d ds)
  have "upsert_all sid t (ds @ [d])
          = replace_into_docs (upsert_all sid t ds) (docs_values sid d)"
    by (simp add: upsert_all_simps)
  also have "\<dots> = replace_into_docs
        (filter (\<lambda>x. \<not> batch_key sid ds x) t @ upsert_all sid [] ds) (docs_values sid d)"
    using snoc.IH by simp
  also have "\<dots> = filter (\<lambda>x. \<not> batch_key sid (ds @ [d]) x) t @ upsert_all sid [] (ds @ [d])"
    by (auto simp: replace_into_docs_def upsert_all_simps batch_key_def intro!: filter_cong)
  finally show ?case .
qed

lemma upsert_all_keys: "x \<in> set (upsert_all sid [] ds) \<Longrightarrow> batch_key sid ds x"
proof (induction ds arbitrary: x rule: rev_induct)
  case Nil
  then show ?case by (simp add: upsert_all_simps)
next
  case (snoc d ds)
  then show ?case
    by (auto simp: upsert_all_simps replace_into_docs_def batch_key_def)
qed

lemma upsert_all_idem: "upsert_all sid (upsert_all sid t ds) ds = upsert_all sid t ds"
proof -
  have "filter (\<lambda>x. \<not> batch_key sid ds x) (upsert_all sid [] ds) = []"
    by (auto simp: filter_empty_conv dest: upsert_all_keys)
  then have "filter (\<lambda>x. \<not> batch_key sid ds x) (upsert_all sid t ds)
               = filter (\<lambda>x. \<not> batch_key sid ds x) t"
    by (subst upsert_all_split) simp
  then show ?thesis
    by (subst upsert_all_split) (simp add: upsert_all_split [of sid t ds])
qed

lemma replace_other_key:
  "k \<noteq> d_docID r \<Longrightarrow>
   filter (\<lambda>x. d_spaceID x = sid \<and> d_docID x = k) (replace_into_docs t r)
     = filter (\<lambda>x. d_spaceID x = sid \<and> d_docID x = k) t"
  by (auto simp: replace_into_docs_def intro!: filter_cong)

lemma replace_same_key:
  "filter (\<lambda>x. d_spaceID x = d_spaceID r \<and> d_docID x = d_docID r) (replace_into_docs t r) = [r]"
  by (auto simp: replace_into_docs_def filter_empty_conv)

lemma upsert_all_other_keys:
  "k \<notin> ID ` set ds \<Longrightarrow>
   filter (\<lambda>x. d_spaceID x = sid \<and> d_docID x = k) (upsert_all sid t ds)
     = filter (\<lambda>x. d_spaceID x = sid \<and> d_docID x = k) t"
proof (induction ds arbitrary: t)
  case Nil
  show ?case by (simp add: upsert_all_simps)
next
  case (Cons d ds)
  then show ?case by (simp add: upsert_all_simps replace_other_key)
qed

text \<open>The row of a key is the one its last document in the batch wrote.\<close>

lemma upsert_all_last_write:
  assumes "ID doc \<notin> ID ` set post"
  shows "filter (\<lambda>x. d_spaceID x = sid \<and> d_docID x = ID doc)
           (upsert_all sid t (pre @ doc # post)) = [docs_values sid doc]"
proof -
  have "upsert_all sid t (pre @ doc # post)
          = upsert_all sid (replace_into_docs (upsert_all sid t pre) (docs_values sid doc)) post"
    by (simp add: upsert_all_def)
  then show ?thesis
    using assms replace_same_key [of "docs_values sid doc" "upsert_all sid t pre"]
    by (simp add: upsert_all_other_keys)
qed

lemma upsert_all_last:
  assumes "doc \<in> set ds"
  shows "filter (\<lambda>x. d_spaceID x = sid \<and> d_docID x = ID doc) (upsert_all sid t ds)
           = [docs_values sid (last (filter (\<lambda>x. ID x = ID doc) ds))]"
proof -
  from assms have "\<exists>x\<in>set ds. ID x = ID doc" by blast
  then obtain pre x post where ds: "ds = pre @ x # post" and x: "ID x = ID doc"
    and post: "\<forall>z\<in>set post. ID z \<noteq> ID doc"
    by (auto dest!: split_list_last_prop)
  have e: "filter (\<lambda>z. ID z = ID doc) post = []"
    using post by (simp add: filter_empty_conv)
  have l: "last (filter (\<lambda>z. ID z = ID doc) ds) = x"
    using x by (simp add: ds e)
  have "ID x \<notin> ID ` set post" using post x by auto
  from upsert_all_last_write [OF this, of sid t pre] have
    "filter (\<lambda>z. d_spaceID z = sid \<and> d_docID z = ID x) (upsert_all sid t ds)
       = [docs_values sid x]"
    by (simp only: ds)
  then show ?thesis
    by (simp only: l x)
qed

subsection \<open>What the updates leave in \<open>interest\<close>\<close>

lemma serve_all_map:
  "serve_all sid t ds =
     map (\<lambda>i. if i_spaceID i = sid \<and> i_docID i \<in> ID ` set ds
               then i\<lparr>i_state := served\<rparr> else i) t"
proof (induction ds arbitrary: t)
  case Nil
  show ?case by (simp add: serve_all_simps)
next
  case (Cons d ds)
  show ?case
    by (auto simp: serve_all_simps Cons.IH update_interest_state_def)
qed

lemma serve_all_idem: "serve_all sid (serve_all sid t ds) ds = serve_all sid t ds"
  by (simp add: serve_all_map)

lemma serve_all_keys:
  "map (\<lambda>i. (i_spaceID i, i_docID i)) (serve_all sid t ds) = map (\<lambda>i. (i_spaceID i, i_docID i)) t"
  by (simp add: serve_all_map comp_def if_distrib cong: if_cong)

lemma filter_key_served:
  "filter (\<lambda>i. i_spaceID i = sid \<and> i_docID i = k)
      (map (\<lambda>i. if C i then i\<lparr>i_state := served\<rparr> else i) t) = []
   \<longleftrightarrow> filter (\<lambda>i. i_spaceID i = sid \<and> i_docID i = k) t = []"
  by (induction t) auto

lemma all_upserted_one_indep:
  assumes "\<forall>t t' r. ra t r = ra t' r"
  shows "all_upserted_one ra sid t ds = all_upserted_one ra sid t' ds"
proof (induction ds arbitrary: t t')
  case Nil
  show ?case by simp
next
  case (Cons d ds)
  have "ra t (docs_values sid d) = ra t' (docs_values sid d)"
    using assms by blast
  moreover have "all_upserted_one ra sid (replace_into_docs t (docs_values sid d)) ds
      = all_upserted_one ra sid (replace_into_docs t' (docs_values sid d)) ds"
    by (rule Cons.IH)
  ultimately show ?case by simp
qed

subsection \<open>Spaces and search\<close>





subsection \<open>The claims about addDocumentUpdates\<close>

text \<open>
  C5. \<open>addDocumentUpdates\<close> is one transaction. When the space is registered and
  every upsert reports one row, it returns no error and the database holds, for
  each document of the batch in turn, the row (\<open>spaceID\<close>, \<open>docID\<close>, \<open>updatedNanos\<close>,
  \<open>txt\<close>, \<open>alive\<close>) upserted under its key, with \<open>txt\<close> empty when the document is
  not alive, and the matching interest row set to \<open>served\<close>. When some upsert
  reports a number of rows other than one, it returns \<open>DocWriteFailed\<close> and the
  database is the one before the call: nothing the batch wrote persists.
\<close>

theorem addDocumentUpdates_transaction:
  "addDocumentUpdates ra db sp ds =
     (case getSpaceID db sp of
        Inl e \<Rightarrow> (Some e, db)
      | Inr sid \<Rightarrow>
          if all_upserted_one ra sid (docs db) ds
          then (None, db\<lparr>docs := upsert_all sid (docs db) ds,
                         interest := serve_all sid (interest db) ds\<rparr>)
          else (Some DocWriteFailed, db)) \<and>
   docs_values sid doc =
     \<lparr>d_spaceID = sid, d_docID = ID doc, d_updatedNanos = Updated doc,
      d_txt = (if Alive doc then Text doc else []), d_alive = Alive doc\<rparr>"
  by (simp add: addDocumentUpdates_folds docs_values_def)

text \<open>
  The batch \<open>a, b\<close> on a driver that reports no row for \<open>b\<close>: the call fails and
  neither the row of \<open>a\<close> nor its served state persists.
\<close>

theorem addDocumentUpdates_transaction_witness:
  "addDocumentUpdates no_row_for_b db_wp ''wp'' [doc_a, doc_b] = (Some DocWriteFailed, db_wp) \<and>
   addDocumentUpdates sqlite_rows_affected db_wp ''wp'' [doc_a, doc_b] =
     (None, db_wp\<lparr>docs := [docs_values 1 doc_a, docs_values 1 doc_b],
                   interest := [\<lparr>i_spaceID = 1, i_docID = ''a'', i_state = served\<rparr>]\<rparr>)"
proof -
  have sid: "getSpaceID db_wp ''wp'' = Inr 1"
    by (simp add: getSpaceID_def db_wp_def)
  have bad: "\<not> all_upserted_one no_row_for_b 1 (docs db_wp) [doc_a, doc_b]"
    by (simp add: no_row_for_b_def doc_b_def)
  have good: "all_upserted_one sqlite_rows_affected 1 (docs db_wp) [doc_a, doc_b]"
    by (simp add: sqlite_rows_affected_def)
  have d: "upsert_all 1 (docs db_wp) [doc_a, doc_b] = [docs_values 1 doc_a, docs_values 1 doc_b]"
    by (simp add: upsert_all_def replace_into_docs_def db_wp_def doc_a_def doc_b_def)
  have i: "serve_all 1 (interest db_wp) [doc_a, doc_b]
             = [\<lparr>i_spaceID = 1, i_docID = ''a'', i_state = served\<rparr>]"
    by (simp add: serve_all_def update_interest_state_def db_wp_def doc_a_def doc_b_def)
  have failing: "addDocumentUpdates no_row_for_b db_wp ''wp'' [doc_a, doc_b]
      = (Some DocWriteFailed, db_wp)"
    using addDocumentUpdates_transaction
      [where ra = no_row_for_b and db = db_wp and sp = "''wp''" and ds = "[doc_a, doc_b]"]
    by (simp only: sid bad sum.case if_False)
  have committing: "addDocumentUpdates sqlite_rows_affected db_wp ''wp'' [doc_a, doc_b] =
     (None, db_wp\<lparr>docs := [docs_values 1 doc_a, docs_values 1 doc_b],
                   interest := [\<lparr>i_spaceID = 1, i_docID = ''a'', i_state = served\<rparr>]\<rparr>)"
    using addDocumentUpdates_transaction
      [where ra = sqlite_rows_affected and db = db_wp and sp = "''wp''" and ds = "[doc_a, doc_b]"]
    by (simp only: sid good sum.case if_True d i)
  show ?thesis
    by (intro conjI failing committing)
qed




text \<open>
  C9. \<open>addDocumentUpdates\<close> is idempotent: when applying a batch succeeds,
  applying the same batch to the resulting database succeeds too and leaves that
  database as it is, the rows of \<open>docs\<close> and the states of \<open>interest\<close> included. The
  driver's row count is taken not to depend on what the table held before (SQLite
  reports one row for every \<open>replace\<close>).
\<close>

theorem addDocumentUpdates_idempotent:
  assumes engine: "\<forall>t t' r. ra t r = ra t' r"
    and once: "addDocumentUpdates ra db sp ds = (None, db1)"
  shows "addDocumentUpdates ra db1 sp ds = (None, db1)"
proof -
  from once obtain sid where sid: "getSpaceID db sp = Inr sid"
    and one: "all_upserted_one ra sid (docs db) ds"
    and db1: "db1 = db\<lparr>docs := upsert_all sid (docs db) ds,
                       interest := serve_all sid (interest db) ds\<rparr>"
    by (rule addDocumentUpdates_committed)
  have sid1: "getSpaceID db1 sp = Inr sid"
    using sid by (simp add: db1 getSpaceID_def)
  have one1: "all_upserted_one ra sid (docs db1) ds"
    using one all_upserted_one_indep [OF engine, of sid "docs db1" ds "docs db"] by simp
  have "db1\<lparr>docs := upsert_all sid (docs db1) ds,
            interest := serve_all sid (interest db1) ds\<rparr> = db1"
    by (simp add: db1 upsert_all_idem serve_all_idem)
  then show ?thesis
    by (simp add: addDocumentUpdates_folds sid1 one1)
qed

theorem addDocumentUpdates_idempotent_witness:
  "(\<forall>t t' r. sqlite_rows_affected t r = sqlite_rows_affected t' r) \<and>
   fst (addDocumentUpdates sqlite_rows_affected db_wp ''wp'' [doc_a, doc_b]) = None \<and>
   addDocumentUpdates sqlite_rows_affected
     (snd (addDocumentUpdates sqlite_rows_affected db_wp ''wp'' [doc_a, doc_b]))
     ''wp'' [doc_a, doc_b]
     = (None, snd (addDocumentUpdates sqlite_rows_affected db_wp ''wp'' [doc_a, doc_b]))"
proof -
  have engine: "\<forall>t t' r. sqlite_rows_affected t r = sqlite_rows_affected t' r"
    by (simp add: sqlite_rows_affected_def)
  have ok: "fst (addDocumentUpdates sqlite_rows_affected db_wp ''wp'' [doc_a, doc_b]) = None"
    by (simp add: addDocumentUpdates_def getSpaceID_def db_wp_def sqlite_rows_affected_def)
  then have once: "addDocumentUpdates sqlite_rows_affected db_wp ''wp'' [doc_a, doc_b]
      = (None, snd (addDocumentUpdates sqlite_rows_affected db_wp ''wp'' [doc_a, doc_b]))"
    by (metis prod.collapse)
  from addDocumentUpdates_idempotent [OF engine once]
  have twice: "addDocumentUpdates sqlite_rows_affected
     (snd (addDocumentUpdates sqlite_rows_affected db_wp ''wp'' [doc_a, doc_b]))
     ''wp'' [doc_a, doc_b]
     = (None, snd (addDocumentUpdates sqlite_rows_affected db_wp ''wp'' [doc_a, doc_b]))" .
  show ?thesis
    by (intro conjI engine ok twice)
qed

text \<open>
  C10. A document of the batch whose (space, docID) has no interest row does not
  make \<open>addDocumentUpdates\<close> fail: when the space is registered and every upsert
  reports one row the call returns no error, whatever \<open>interest\<close> holds (the row
  count of the interest update is not read). The row kept in \<open>docs\<close> under the
  document's key is the one the last document of that id in the batch wrote;
  \<open>interest\<close> still has no row for the document, and no row of \<open>interest\<close> was added
  or removed.
\<close>

theorem addDocumentUpdates_without_interest_row:
  assumes registered: "getSpaceID db sp = Inr sid"
    and one: "all_upserted_one ra sid (docs db) ds"
    and batch: "doc \<in> set ds"
    and none: "filter (\<lambda>i. i_spaceID i = sid \<and> i_docID i = ID doc) (interest db) = []"
  shows "fst (addDocumentUpdates ra db sp ds) = None \<and>
         filter (\<lambda>r. d_spaceID r = sid \<and> d_docID r = ID doc)
             (docs (snd (addDocumentUpdates ra db sp ds)))
           = [docs_values sid (last (filter (\<lambda>x. ID x = ID doc) ds))] \<and>
         filter (\<lambda>i. i_spaceID i = sid \<and> i_docID i = ID doc)
             (interest (snd (addDocumentUpdates ra db sp ds))) = [] \<and>
         map (\<lambda>i. (i_spaceID i, i_docID i)) (interest (snd (addDocumentUpdates ra db sp ds)))
           = map (\<lambda>i. (i_spaceID i, i_docID i)) (interest db)"
proof -
  have r: "addDocumentUpdates ra db sp ds
        = (None, db\<lparr>docs := upsert_all sid (docs db) ds,
                      interest := serve_all sid (interest db) ds\<rparr>)"
    by (simp add: addDocumentUpdates_folds registered one)
  have "filter (\<lambda>i. i_spaceID i = sid \<and> i_docID i = ID doc)
          (serve_all sid (interest db) ds) = []"
    using none by (simp only: serve_all_map filter_key_served)
  then show ?thesis
    using upsert_all_last [OF batch, of sid "docs db"] serve_all_keys [of sid "interest db" ds]
    by (simp add: r)
qed

text \<open>
  The batch \<open>a, c\<close> where only \<open>a\<close> has an interest row: both rows are stored, \<open>a\<close>
  is served, and \<open>interest\<close> has no row for \<open>c\<close>.
\<close>

theorem addDocumentUpdates_without_interest_row_witness:
  "getSpaceID db_wp ''wp'' = Inr 1 \<and>
   filter (\<lambda>i. i_spaceID i = 1 \<and> i_docID i = ''c'') (interest db_wp) = [] \<and>
   addDocumentUpdates sqlite_rows_affected db_wp ''wp'' [doc_a, doc_c] =
     (None, db_wp\<lparr>docs := docs db_wp @ [docs_values 1 doc_a, docs_values 1 doc_c],
                   interest := [\<lparr>i_spaceID = 1, i_docID = ''a'', i_state = served\<rparr>]\<rparr>)"
proof -
  have registered: "getSpaceID db_wp ''wp'' = Inr 1"
    by (simp add: getSpaceID_def db_wp_def)
  have one: "all_upserted_one sqlite_rows_affected 1 (docs db_wp) [doc_a, doc_c]"
    by (simp add: sqlite_rows_affected_def)
  have batch: "doc_c \<in> set [doc_a, doc_c]"
    by simp
  have none: "filter (\<lambda>i. i_spaceID i = 1 \<and> i_docID i = ID doc_c) (interest db_wp) = []"
    by (simp add: db_wp_def doc_c_def)
  have "fst (addDocumentUpdates sqlite_rows_affected db_wp ''wp'' [doc_a, doc_c]) = None"
    using addDocumentUpdates_without_interest_row [OF registered one batch none] by simp
  moreover have "snd (addDocumentUpdates sqlite_rows_affected db_wp ''wp'' [doc_a, doc_c])
     = db_wp\<lparr>docs := docs db_wp @ [docs_values 1 doc_a, docs_values 1 doc_c],
              interest := [\<lparr>i_spaceID = 1, i_docID = ''a'', i_state = served\<rparr>]\<rparr>"
    by (simp add: addDocumentUpdates_def getSpaceID_def db_wp_def sqlite_rows_affected_def
        replace_into_docs_def update_interest_state_def doc_a_def doc_c_def docs_values_def)
  ultimately have "addDocumentUpdates sqlite_rows_affected db_wp ''wp'' [doc_a, doc_c] =
     (None, db_wp\<lparr>docs := docs db_wp @ [docs_values 1 doc_a, docs_values 1 doc_c],
                   interest := [\<lparr>i_spaceID = 1, i_docID = ''a'', i_state = served\<rparr>]\<rparr>)"
    by (simp only: prod_eq_iff fst_conv snd_conv simp_thms)
  moreover have "filter (\<lambda>i. i_spaceID i = 1 \<and> i_docID i = ''c'') (interest db_wp) = []"
    by (simp add: db_wp_def)
  ultimately show ?thesis
    by (intro conjI registered)
qed

section \<open>setInterestList\<close>

lemma insert_interest_fresh:
  assumes "distinct list"
    and "\<forall>d\<in>set list. (sid, d) \<notin> set (map (\<lambda>i. (i_spaceID i, i_docID i)) t)"
  shows "insert_interest sid list t
           = Inr (t @ map (\<lambda>d. \<lparr>i_spaceID = sid, i_docID = d, i_state = pending\<rparr>) list)"
  using assms
proof (induction list arbitrary: t)
  case Nil
  show ?case by simp
next
  case (Cons d list)
  have fresh: "(sid, d) \<notin> set (map (\<lambda>i. (i_spaceID i, i_docID i)) t)"
    using Cons.prems(2) by simp
  have "\<forall>x\<in>set list. (sid, x) \<notin> set (map (\<lambda>i. (i_spaceID i, i_docID i))
            (t @ [\<lparr>i_spaceID = sid, i_docID = d, i_state = pending\<rparr>]))"
    using Cons.prems by auto
  with Cons.IH [of "t @ [\<lparr>i_spaceID = sid, i_docID = d, i_state = pending\<rparr>]"] Cons.prems(1)
  have "insert_interest sid list (t @ [\<lparr>i_spaceID = sid, i_docID = d, i_state = pending\<rparr>])
      = Inr ((t @ [\<lparr>i_spaceID = sid, i_docID = d, i_state = pending\<rparr>]) @
             map (\<lambda>d. \<lparr>i_spaceID = sid, i_docID = d, i_state = pending\<rparr>) list)"
    by simp
  with fresh show ?case by simp
qed

lemma getSpaceID_first:
  "getSpaceID db sp = Inr sid \<Longrightarrow>
   \<exists>s rest. filter (\<lambda>s. space s = sp) (spaces db) = s # rest \<and> spaceID s = sid"
  by (auto simp: getSpaceID_def split: list.splits)

text \<open>
  C3, as amended. For a registered space and a list that repeats no document,
  \<open>setInterestList\<close> succeeds exactly when no interest row of the space is in a
  state other than \<open>served\<close>. On success the rows of the space are deleted, the
  list is inserted as \<open>pending\<close> rows and \<open>listCreatedAtNanos\<close> of the space is the
  current time; otherwise the error is \<open>ActiveListExists\<close> and the database is the
  one before the call.
\<close>

theorem setInterestList_installs_or_refuses:
  assumes registered: "getSpaceID db sp = Inr sid"
    and nodup: "distinct list"
  shows "setInterestList now db sp list =
     (if filter (\<lambda>i. i_spaceID i = sid \<and> i_state i \<noteq> served) (interest db) = []
      then (None,
            db\<lparr>interest :=
                 filter (\<lambda>i. i_spaceID i \<noteq> sid) (interest db) @
                 map (\<lambda>d. \<lparr>i_spaceID = sid, i_docID = d, i_state = pending\<rparr>) list,
               spaces :=
                 map (\<lambda>r. if spaceID r = sid then r\<lparr>listCreatedAtNanos := now\<rparr> else r)
                   (spaces db)\<rparr>)
      else (Some ActiveListExists, db))"
proof -
  from getSpaceID_first [OF registered] obtain s rest
    where f: "filter (\<lambda>s. space s = sp) (spaces db) = s # rest" and s: "spaceID s = sid"
    by blast
  have "\<forall>d\<in>set list. (sid, d) \<notin> set (map (\<lambda>i. (i_spaceID i, i_docID i))
           (filter (\<lambda>i. i_spaceID i \<noteq> sid) (interest db)))"
    by auto
  from insert_interest_fresh [OF nodup this]
  have ins: "insert_interest sid list (filter (\<lambda>i. i_spaceID i \<noteq> sid) (interest db))
      = Inr (filter (\<lambda>i. i_spaceID i \<noteq> sid) (interest db) @
             map (\<lambda>d. \<lparr>i_spaceID = sid, i_docID = d, i_state = pending\<rparr>) list)" .
  show ?thesis
    by (simp add: setInterestList_def f s ins Let_def)
qed

theorem setInterestList_installs_or_refuses_witness:
  "getSpaceID db_done ''wp'' = Inr 1 \<and> distinct [''b'', ''c''] \<and>
   setInterestList 7 db_done ''wp'' [''b'', ''c''] =
     (None,
      db_done\<lparr>interest := [\<lparr>i_spaceID = 1, i_docID = ''b'', i_state = pending\<rparr>,
                            \<lparr>i_spaceID = 1, i_docID = ''c'', i_state = pending\<rparr>],
              spaces := [\<lparr>spaceID = 1, space = ''wp'', listCreatedAtNanos = 7,
                          lastUpdatedAtNanos = 0, lastUpdatedDocID = []\<rparr>]\<rparr>) \<and>
   setInterestList 7 db_wp ''wp'' [''b'', ''c''] = (Some ActiveListExists, db_wp)"
proof -
  have r1: "getSpaceID db_done ''wp'' = Inr 1"
    by (simp add: getSpaceID_def db_done_def)
  have r2: "getSpaceID db_wp ''wp'' = Inr 1"
    by (simp add: getSpaceID_def db_wp_def)
  have d: "distinct [''b'', ''c'']"
    by simp
  have installs: "setInterestList 7 db_done ''wp'' [''b'', ''c''] =
     (None,
      db_done\<lparr>interest := [\<lparr>i_spaceID = 1, i_docID = ''b'', i_state = pending\<rparr>,
                            \<lparr>i_spaceID = 1, i_docID = ''c'', i_state = pending\<rparr>],
              spaces := [\<lparr>spaceID = 1, space = ''wp'', listCreatedAtNanos = 7,
                          lastUpdatedAtNanos = 0, lastUpdatedDocID = []\<rparr>]\<rparr>)"
    using setInterestList_installs_or_refuses [OF r1 d, of 7]
    by (simp add: db_done_def)
  have refuses: "setInterestList 7 db_wp ''wp'' [''b'', ''c''] = (Some ActiveListExists, db_wp)"
    using setInterestList_installs_or_refuses [OF r2 d, of 7]
    by (simp add: db_wp_def)
  show ?thesis
    by (intro conjI r1 d installs refuses)
qed

text \<open>
  C3 as stated fails: every interest row of \<open>wp\<close> is served, yet a list that names
  a document twice is refused, by the primary key of \<open>interest\<close>, and nothing is
  committed. (A space that is not registered is refused as well, with
  \<open>sql.ErrNoRows\<close>, though it has no interest row at all.)
\<close>

theorem setInterestList_duplicate_counterexample:
  "getSpaceID db_done ''wp'' = Inr 1 \<and>
   filter (\<lambda>i. i_spaceID i = 1 \<and> i_state i \<noteq> served) (interest db_done) = [] \<and>
   setInterestList 7 db_done ''wp'' [''x'', ''x''] = (Some ConstraintFailed, db_done) \<and>
   setInterestList 7 db_done ''other'' [''x''] = (Some ErrNoRows, db_done)"
  by (simp add: getSpaceID_def setInterestList_def db_done_def)

section \<open>commitInterestList\<close>

subsection \<open>The row that the query returns\<close>

lemma order_limit_1_None: "order_limit_1 xs = None \<longleftrightarrow> xs = []"
  by (induction xs) (auto split: option.splits)


lemma sorts_before_total: "sorts_before a b \<or> sorts_before b a"
  by (auto simp: sorts_before_def)

lemma sorts_before_trans: "sorts_before a b \<Longrightarrow> sorts_before b c \<Longrightarrow> sorts_before a c"
  by (auto simp: sorts_before_def)

lemma sorts_before_refl: "sorts_before a a"
  by (simp add: sorts_before_def)

text \<open>
  The row returned sorts before every row of the result: it has the highest
  \<open>updatedNanos\<close> and, among the rows of that timestamp, the smallest \<open>docID\<close>.
\<close>

lemma order_limit_1_first_all:
  "order_limit_1 xs = Some p \<Longrightarrow> \<forall>q\<in>set xs. sorts_before p q"
proof (induction xs arbitrary: p)
  case Nil
  then show ?case by simp
next
  case (Cons x xs)
  show ?case
  proof (cases "order_limit_1 xs")
    case None
    then have "xs = []" by (simp add: order_limit_1_None)
    with Cons.prems None show ?thesis by (simp add: sorts_before_refl)
  next
    case (Some y)
    have y: "\<forall>z\<in>set xs. sorts_before y z"
      using Cons.IH [OF Some] .
    show ?thesis
    proof (cases "sorts_before x y")
      case True
      then have "p = x" using Cons.prems(1) Some by simp
      then show ?thesis
        using True y sorts_before_trans sorts_before_refl by auto
    next
      case False
      then have "p = y" using Cons.prems(1) Some by simp
      moreover have "sorts_before y x" using False sorts_before_total by blast
      ultimately show ?thesis
        using y by auto
    qed
  qed
qed

lemma order_limit_1_first:
  "order_limit_1 xs = Some p \<Longrightarrow> q \<in> set xs \<Longrightarrow> sorts_before p q"
  using order_limit_1_first_all by blast

lemma order_limit_1_highest_then_smallest:
  assumes "order_limit_1 xs = Some p" and "q \<in> set xs"
  shows "fst q \<le> fst p \<and> (fst q = fst p \<longrightarrow> snd p \<le> snd q)"
  using order_limit_1_first [OF assms] by (auto simp: sorts_before_def)

subsection \<open>The position after a commit\<close>





lemma filter_map_keep:
  "(\<And>x. P (f x) = P x) \<Longrightarrow> filter P (map f xs) = map f (filter P xs)"
  by (induction xs) auto







subsection \<open>The claims about commitInterestList\<close>

text \<open>
  C1 fails on the code. The query of \<open>commitInterestList\<close> restricts neither
  \<open>interest\<close> nor \<open>docs\<close> to the space: here \<open>wp\<close> has no served interest at all, so
  the claim has the commit of \<open>wp\<close> return without changing the position
  (10, \<open>k\<close>); the code moves it to (50, \<open>x\<close>), the served document of \<open>news\<close>.
\<close>

theorem commitInterestList_takes_other_spaces:
  "served_positions db_two ''wp'' = [] \<and>
   cursor db_two ''wp'' = [(10, ''k'')] \<and>
   fst (commitInterestList db_two ''wp'') = None \<and>
   cursor (snd (commitInterestList db_two ''wp'')) ''wp'' = [(50, ''x'')]"
  by (simp add: served_positions_def cursor_def commitInterestList_def commit_rows_def
      db_two_def)

text \<open>
  The other way the code departs from C1: of two served documents with the same
  timestamp the query orders the smaller \<open>docID\<close> first, so the position becomes
  (50, \<open>a\<close>) where the highest pair is (50, \<open>b\<close>).
\<close>

lemma commitInterestList_tie_takes_smallest_id:
  "served_positions db_tie ''wp'' = [(50, ''a''), (50, ''b'')] \<and>
   position_le (50, ''a'') (50, ''b'') \<and> \<not> position_le (50, ''b'') (50, ''a'') \<and>
   fst (commitInterestList db_tie ''wp'') = None \<and>
   cursor (snd (commitInterestList db_tie ''wp'')) ''wp'' = [(50, ''a'')]"
  by (simp add: served_positions_def cursor_def commitInterestList_def commit_rows_def
      db_tie_def position_le_def sorts_before_def)




section \<open>The update cycle\<close>

subsection \<open>Space ids are never rewritten\<close>

lemma space_ids_lookup:
  "(case filter (\<lambda>s. space s = sp) xs of [] \<Rightarrow> Inl NoSuchSpace | s # _ \<Rightarrow> Inr (spaceID s))
   = (case filter (\<lambda>p. fst p = sp) (map (\<lambda>s. (space s, spaceID s)) xs) of
        [] \<Rightarrow> Inl NoSuchSpace | p # _ \<Rightarrow> Inr (snd p))"
  by (induction xs) auto

lemma getSpaceID_same_ids:
  assumes "map (\<lambda>s. (space s, spaceID s)) (spaces db') = map (\<lambda>s. (space s, spaceID s)) (spaces db)"
  shows "getSpaceID db' sp = getSpaceID db sp"
  unfolding getSpaceID_def space_ids_lookup assms ..

lemma setInterestState_ids: "setInterestState db sp d st = (e, db') \<Longrightarrow> spaces db' = spaces db"
  by (auto simp: setInterestState_def split: sum.splits)

lemma resetRequested_ids: "resetRequested db sp = (e, db') \<Longrightarrow> spaces db' = spaces db"
  by (auto simp: resetRequested_def split: sum.splits)

lemma clearInterestList_ids: "clearInterestList db sp = (e, db') \<Longrightarrow> spaces db' = spaces db"
  by (auto simp: clearInterestList_def split: sum.splits)

lemma addDocumentUpdates_ids: "addDocumentUpdates ra db sp ds = (e, db') \<Longrightarrow> spaces db' = spaces db"
  by (auto simp: addDocumentUpdates_folds split: sum.splits if_splits)

lemma commitInterestList_ids:
  "commitInterestList db sp = (e, db') \<Longrightarrow>
   map (\<lambda>s. (space s, spaceID s)) (spaces db') = map (\<lambda>s. (space s, spaceID s)) (spaces db)"
  by (auto simp: commitInterestList_def Let_def comp_def split: option.splits if_splits)

lemma setInterestList_ids:
  "setInterestList now db sp list = (e, db') \<Longrightarrow>
   map (\<lambda>s. (space s, spaceID s)) (spaces db') = map (\<lambda>s. (space s, spaceID s)) (spaces db)"
  by (auto simp: setInterestList_def Let_def comp_def split: list.splits sum.splits if_splits)

lemma commitInterestList_interest: "commitInterestList db sp = (e, db') \<Longrightarrow> interest db' = interest db"
  by (auto simp: commitInterestList_def Let_def split: option.splits if_splits)

subsection \<open>The primary key of interest and the count of requested rows\<close>

lemma unique_interest_update:
  "unique_interest (update_interest_state t sid d st) = unique_interest t"
proof -
  have "map (\<lambda>i. (i_spaceID i, i_docID i)) (update_interest_state t sid d st)
          = map (\<lambda>i. (i_spaceID i, i_docID i)) t"
    by (induction t) (auto simp: update_interest_state_def)
  then show ?thesis by (simp add: unique_interest_def)
qed

lemma unique_interest_filter: "unique_interest t \<Longrightarrow> unique_interest (filter P t)"
  by (simp add: unique_interest_def distinct_map_filter)

lemma unique_interest_map_state:
  "unique_interest (map (\<lambda>i. if C i then i\<lparr>i_state := st\<rparr> else i) t) = unique_interest t"
proof -
  have "map (\<lambda>i. (i_spaceID i, i_docID i)) (map (\<lambda>i. if C i then i\<lparr>i_state := st\<rparr> else i) t)
          = map (\<lambda>i. (i_spaceID i, i_docID i)) t"
    by (induction t) auto
  then show ?thesis unfolding unique_interest_def by (simp only:)
qed

lemma insert_interest_unique:
  "unique_interest t \<Longrightarrow> insert_interest sid list t = Inr t' \<Longrightarrow> unique_interest t'"
proof (induction list arbitrary: t)
  case Nil
  then show ?case by simp
next
  case (Cons d list)
  from Cons.prems(2) have fresh: "(sid, d) \<notin> set (map (\<lambda>i. (i_spaceID i, i_docID i)) t)"
    and rest: "insert_interest sid list (t @ [\<lparr>i_spaceID = sid, i_docID = d, i_state = pending\<rparr>]) = Inr t'"
    by (auto split: if_splits)
  have "unique_interest (t @ [\<lparr>i_spaceID = sid, i_docID = d, i_state = pending\<rparr>])"
    using Cons.prems(1) fresh by (auto simp: unique_interest_def)
  from Cons.IH [OF this rest] show ?case .
qed

lemma insert_interest_pending:
  "insert_interest sid list t = Inr t' \<Longrightarrow>
   filter (\<lambda>i. i_state i = requested) t' = filter (\<lambda>i. i_state i = requested) t"
proof (induction list arbitrary: t)
  case Nil
  then show ?case by simp
next
  case (Cons d list)
  from Cons.prems have
    rest: "insert_interest sid list (t @ [\<lparr>i_spaceID = sid, i_docID = d, i_state = pending\<rparr>]) = Inr t'"
    by (auto split: if_splits)
  from Cons.IH [OF rest] show ?case by simp
qed

lemma count_requested_alt:
  "count_requested db sid
     = length (filter (\<lambda>i. i_spaceID i = sid) (filter (\<lambda>i. i_state i = requested) (interest db)))"
  by (simp add: count_requested_def conj_commute)

lemma length_filter_key_le_1:
  "distinct (map k t) \<Longrightarrow> length (filter (\<lambda>i. k i = v) t) \<le> 1"
proof (induction t)
  case Nil
  show ?case by simp
next
  case (Cons a t)
  show ?case
  proof (cases "k a = v")
    case True
    have "\<forall>x\<in>set t. k x \<noteq> k a"
      using Cons.prems by (metis distinct.simps(2) image_eqI list.simps(9) set_map)
    then have "filter (\<lambda>i. k i = v) t = []"
      using True by (simp add: filter_empty_conv)
    with True show ?thesis by simp
  next
    case False
    with Cons show ?thesis by simp
  qed
qed

lemma length_filter_disj:
  "length (filter (\<lambda>i. A i \<or> B i) t) \<le> length (filter A t) + length (filter B t)"
  by (induction t) auto

lemma count_after_request:
  assumes "unique_interest t"
  shows "length (filter (\<lambda>i. i_spaceID i = sid \<and> i_state i = requested)
            (update_interest_state t sid' d requested))
         \<le> length (filter (\<lambda>i. i_spaceID i = sid \<and> i_state i = requested) t)
             + (if sid' = sid then 1 else 0)"
proof -
  have "length (filter (\<lambda>i. i_spaceID i = sid \<and> i_state i = requested)
            (update_interest_state t sid' d requested))
      = length (filter (\<lambda>i. (i_spaceID i = sid \<and> sid' = sid \<and> i_docID i = d)
                              \<or> (i_spaceID i = sid \<and> i_state i = requested)) t)"
    unfolding update_interest_state_def filter_map length_map comp_def
    by (rule arg_cong [where f = length], rule filter_cong) auto
  also have "\<dots> \<le> length (filter (\<lambda>i. i_spaceID i = sid \<and> sid' = sid \<and> i_docID i = d) t)
              + length (filter (\<lambda>i. i_spaceID i = sid \<and> i_state i = requested) t)"
    by (rule length_filter_disj)
  also have "length (filter (\<lambda>i. i_spaceID i = sid \<and> sid' = sid \<and> i_docID i = d) t)
               \<le> (if sid' = sid then 1 else 0)"
  proof (cases "sid' = sid")
    case True
    have "length (filter (\<lambda>i. (i_spaceID i, i_docID i) = (sid, d)) t) \<le> 1"
      using assms unfolding unique_interest_def by (rule length_filter_key_le_1)
    with True show ?thesis by simp
  next
    case False
    then show ?thesis by simp
  qed
  finally show ?thesis by simp
qed

lemma count_after_map_not_requested:
  assumes "st \<noteq> requested"
  shows "length (filter (\<lambda>i. i_spaceID i = sid \<and> i_state i = requested)
            (map (\<lambda>i. if C i then i\<lparr>i_state := st\<rparr> else i) t))
         \<le> length (filter (\<lambda>i. i_spaceID i = sid \<and> i_state i = requested) t)"
  using assms by (induction t) auto

subsection \<open>One store call at a time\<close>

lemma length_filter_imp:
  "(\<And>x. P x \<Longrightarrow> Q x) \<Longrightarrow> length (filter P xs) \<le> length (filter Q xs)"
  by (induction xs) auto

lemma getInterestList_counts:
  assumes "getInterestList db sp = Inr interests"
  shows "\<exists>sid. getSpaceID db sp = Inr sid \<and>
           count_state requested interests = int (count_requested db sid) \<and>
           interests = map (\<lambda>i. \<lparr>DocID = i_docID i, State = i_state i\<rparr>)
                         (filter (\<lambda>i. i_spaceID i = sid) (interest db))"
proof -
  from assms obtain sid where sid: "getSpaceID db sp = Inr sid"
    and l: "interests = map (\<lambda>i. \<lparr>DocID = i_docID i, State = i_state i\<rparr>)
                         (filter (\<lambda>i. i_spaceID i = sid) (interest db))"
    by (auto simp: getInterestList_def split: sum.splits)
  have "count_state requested interests = int (count_requested db sid)"
    by (simp add: l count_state_def count_requested_def filter_map comp_def)
  with sid l show ?thesis by blast
qed

lemma setInterestState_step:
  assumes "setInterestState db sp d requested = (e, db')"
    and "unique_interest (interest db)"
  shows "unique_interest (interest db')"
    and "getSpaceID db' sp' = getSpaceID db sp'"
    and "count_requested db' sid
           \<le> count_requested db sid + (if getSpaceID db sp = Inr sid then 1 else 0)"
proof -
  show "getSpaceID db' sp' = getSpaceID db sp'"
    using setInterestState_ids [OF assms(1)] by (simp add: getSpaceID_def)
  show "unique_interest (interest db')"
    using assms by (auto simp: setInterestState_def unique_interest_update split: sum.splits)
  show "count_requested db' sid
           \<le> count_requested db sid + (if getSpaceID db sp = Inr sid then 1 else 0)"
  proof (cases "getSpaceID db sp")
    case (Inl err)
    with assms(1) show ?thesis by (simp add: setInterestState_def)
  next
    case (Inr sid')
    with assms(1) have "interest db' = update_interest_state (interest db) sid' d requested"
      by (auto simp: setInterestState_def)
    with count_after_request [OF assms(2), of sid sid' d] Inr show ?thesis
      by (auto simp: count_requested_def)
  qed
qed

lemma resetRequested_step:
  assumes "resetRequested db sp = (e, db')"
  shows "unique_interest (interest db') = unique_interest (interest db)"
    and "getSpaceID db' sp' = getSpaceID db sp'"
    and "count_requested db' sid \<le> count_requested db sid"
proof -
  show "getSpaceID db' sp' = getSpaceID db sp'"
    using resetRequested_ids [OF assms] by (simp add: getSpaceID_def)
  show "unique_interest (interest db') = unique_interest (interest db)"
    using assms by (auto simp: resetRequested_def unique_interest_map_state split: sum.splits)
  show "count_requested db' sid \<le> count_requested db sid"
    using assms count_after_map_not_requested [of pending sid _ "interest db"]
    by (auto simp: resetRequested_def count_requested_def split: sum.splits)
qed

lemma commitInterestList_step:
  assumes "commitInterestList db sp = (e, db')"
  shows "interest db' = interest db"
    and "getSpaceID db' sp' = getSpaceID db sp'"
  using commitInterestList_interest [OF assms]
    getSpaceID_same_ids [OF commitInterestList_ids [OF assms]] by simp_all

lemma setInterestList_step:
  assumes "setInterestList now db sp list = (e, db')"
    and "unique_interest (interest db)"
  shows "unique_interest (interest db')"
    and "getSpaceID db' sp' = getSpaceID db sp'"
    and "count_requested db' sid \<le> count_requested db sid"
proof -
  show "getSpaceID db' sp' = getSpaceID db sp'"
    using getSpaceID_same_ids [OF setInterestList_ids [OF assms(1)]] .
  have cases: "db' = db \<or>
      (\<exists>s. insert_interest s list (filter (\<lambda>i. i_spaceID i \<noteq> s) (interest db))
             = Inr (interest db'))"
    using assms(1)
    by (auto simp: setInterestList_def Let_def split: list.splits sum.splits if_splits)
  show "unique_interest (interest db')"
    using cases assms(2) insert_interest_unique [OF unique_interest_filter [OF assms(2)]]
    by auto
  show "count_requested db' sid \<le> count_requested db sid"
  proof -
    { fix s
      assume "insert_interest s list (filter (\<lambda>i. i_spaceID i \<noteq> s) (interest db))
                = Inr (interest db')"
      from insert_interest_pending [OF this]
      have "count_requested db' sid
          = length (filter (\<lambda>i. i_spaceID i = sid)
              (filter (\<lambda>i. i_spaceID i \<noteq> s)
                 (filter (\<lambda>i. i_state i = requested) (interest db))))"
        by (simp add: count_requested_alt conj_commute)
      also have "\<dots> \<le> count_requested db sid"
        unfolding count_requested_alt
        by (simp only: filter_filter) (rule length_filter_imp, auto)
      finally have "count_requested db' sid \<le> count_requested db sid" .
    }
    with cases show ?thesis by auto
  qed
qed

lemma addDocumentUpdates_step:
  assumes "addDocumentUpdates ra db sp ds = (e, db')"
  shows "unique_interest (interest db') = unique_interest (interest db)"
    and "getSpaceID db' sp' = getSpaceID db sp'"
    and "count_requested db' sid \<le> count_requested db sid"
proof -
  show "getSpaceID db' sp' = getSpaceID db sp'"
    using addDocumentUpdates_ids [OF assms] by (simp add: getSpaceID_def)
  have cases: "db' = db \<or> (\<exists>s. interest db' = serve_all s (interest db) ds)"
    using assms by (auto simp: addDocumentUpdates_folds split: sum.splits if_splits)
  then show "unique_interest (interest db') = unique_interest (interest db)"
    by (auto simp: serve_all_map unique_interest_map_state)
  show "count_requested db' sid \<le> count_requested db sid"
    using cases count_after_map_not_requested [of served sid _ "interest db"]
    by (auto simp: serve_all_map count_requested_def)
qed

lemma clearInterestList_step:
  assumes "clearInterestList db sp = (e, db')"
    and "unique_interest (interest db)"
  shows "unique_interest (interest db')"
    and "getSpaceID db' sp' = getSpaceID db sp'"
    and "count_requested db' sid \<le> count_requested db sid"
proof -
  show "getSpaceID db' sp' = getSpaceID db sp'"
    using clearInterestList_ids [OF assms(1)] by (simp add: getSpaceID_def)
  have cases: "db' = db \<or> (\<exists>s. interest db' = filter (\<lambda>i. i_spaceID i \<noteq> s) (interest db))"
    using assms(1) by (auto simp: clearInterestList_def split: sum.splits)
  then show "unique_interest (interest db')"
    using assms(2) unique_interest_filter by auto
  show "count_requested db' sid \<le> count_requested db sid"
    using cases
    by (auto simp: count_requested_def intro!: length_filter_imp)
qed

lemma docsToRequest_le:
  "docsToRequest cfg interests \<le> int (MaxOutstanding cfg) - count_state requested interests"
  by (simp add: docsToRequest_def)

lemma step_within_bound:
  assumes "step cfg ra ob ob'" and "within_bound cfg sid ob"
  shows "within_bound cfg sid ob'"
  using assms
proof (cases rule: step.cases)
  case (plan db sp interests sp0)
  from getInterestList_counts [OF plan(3)] obtain sid' where
    sid': "getSpaceID db sp = Inr sid'"
    and r: "count_state requested interests = int (count_requested db sid')"
    by blast
  have u: "unique_interest (interest db)" and c: "count_requested db sid \<le> MaxOutstanding cfg"
    using assms(2) plan(1) by (auto simp: within_bound_def split: if_splits)
  have "length (take (nat (docsToRequest cfg interests)) (pendingIDs interests))
          \<le> nat (docsToRequest cfg interests)"
    by simp
  also have "\<dots> \<le> nat (int (MaxOutstanding cfg) - int (count_requested db sid'))"
    using docsToRequest_le [of cfg interests] r by simp
  finally have "sid' = sid \<Longrightarrow>
      count_requested db sid
        + length (take (nat (docsToRequest cfg interests)) (pendingIDs interests))
      \<le> MaxOutstanding cfg"
    using plan(4) docsToRequest_le [of cfg interests] r by simp
  then show ?thesis
    using u c sid' by (auto simp: within_bound_def plan(2))
next
  case (request db sp d e db' todo)
  have u: "unique_interest (interest db)"
    using assms(2) request(1) by (simp add: within_bound_def)
  from setInterestState_step(1) [OF request(3) u] setInterestState_step(2) [OF request(3) u, of sp]
    setInterestState_step(3) [OF request(3) u, of sid] assms(2) request(1)
  show ?thesis
    by (auto simp: within_bound_def request(2) split: if_splits)
next
  case (stop db sp todo)
  with assms(2) show ?thesis
    by (auto simp: within_bound_def split: if_splits)
next
  case (reset db sp' e db' sp todo)
  from resetRequested_step(1) [OF reset(3)] resetRequested_step(2) [OF reset(3), of sp]
    resetRequested_step(3) [OF reset(3), of sid] assms(2) reset(1)
  show ?thesis
    by (auto simp: within_bound_def reset(2) split: if_splits)
next
  case (commit db sp' e db' sp todo)
  from commitInterestList_step(1) [OF commit(3)] commitInterestList_step(2) [OF commit(3), of sp]
    assms(2) commit(1)
  show ?thesis
    by (auto simp: within_bound_def commit(2) count_requested_def split: if_splits)
next
  case (newlist now db sp' list e db' sp todo)
  have u: "unique_interest (interest db)"
    using assms(2) newlist(1) by (simp add: within_bound_def)
  from setInterestList_step(1) [OF newlist(3) u] setInterestList_step(2) [OF newlist(3) u, of sp]
    setInterestList_step(3) [OF newlist(3) u, of sid] assms(2) newlist(1)
  show ?thesis
    by (auto simp: within_bound_def newlist(2) split: if_splits)
next
  case (sink db sp' ds e db' sp todo)
  from addDocumentUpdates_step(1) [OF sink(3)] addDocumentUpdates_step(2) [OF sink(3), of sp]
    addDocumentUpdates_step(3) [OF sink(3), of sid] assms(2) sink(1)
  show ?thesis
    by (auto simp: within_bound_def sink(2) split: if_splits)
next
  case (clear db sp' e db' sp todo)
  have u: "unique_interest (interest db)"
    using assms(2) clear(1) by (simp add: within_bound_def)
  from clearInterestList_step(1) [OF clear(3) u] clearInterestList_step(2) [OF clear(3) u, of sp]
    clearInterestList_step(3) [OF clear(3) u, of sid] assms(2) clear(1)
  show ?thesis
    by (auto simp: within_bound_def clear(2) split: if_splits)
qed

lemma steps_within_bound:
  assumes "rtranclp (step cfg ra) ob ob'" and "within_bound cfg sid ob"
  shows "within_bound cfg sid ob'"
  using assms by (induction rule: rtranclp_induct) (auto intro: step_within_bound)

lemma reachable_bound:
  assumes "rtranclp (step cfg ra) (db0, sp0, []) (db, sp, todo)"
    and "unique_interest (interest db0)" and "count_requested db0 sid = 0"
  shows "count_requested db sid \<le> MaxOutstanding cfg"
proof -
  have "within_bound cfg sid (db0, sp0, [])"
    using assms(2,3) by (simp add: within_bound_def)
  from steps_within_bound [OF assms(1) this] show ?thesis
    by (auto simp: within_bound_def split: if_splits)
qed

subsection \<open>The request step\<close>

lemma request_all_simps:
  "request_all sid t [] = t"
  "request_all sid t (d # ds) = request_all sid (update_interest_state t sid d requested) ds"
  by (simp_all add: request_all_def)

lemma request_all_map:
  "request_all sid t wanted =
     map (\<lambda>i. if i_spaceID i = sid \<and> i_docID i \<in> set wanted
               then i\<lparr>i_state := requested\<rparr> else i) t"
proof (induction wanted arbitrary: t)
  case Nil
  show ?case by (simp add: request_all_simps)
next
  case (Cons d ds)
  show ?case
    by (auto simp: request_all_simps Cons.IH update_interest_state_def)
qed

lemma request_each_registered:
  assumes "getSpaceID (store idx) sp = Inr sid"
  shows "request_each idx sp wanted =
     (None, idx\<lparr>store := (store idx)\<lparr>interest := request_all sid (interest (store idx)) wanted\<rparr>,
                calls := calls idx @ request_calls sp wanted\<rparr>)"
  using assms
proof (induction wanted arbitrary: idx)
  case Nil
  show ?case by (simp add: request_all_simps request_calls_def)
next
  case (Cons d wanted)
  define idx1 where "idx1 = idx\<lparr>store := (store idx)\<lparr>interest :=
        update_interest_state (interest (store idx)) sid d requested\<rparr>,
      calls := calls idx @ [SetInterestState sp d requested]\<rparr>"
  have s: "setInterestState (store idx) sp d requested
      = (None, (store idx)\<lparr>interest := update_interest_state (interest (store idx)) sid d requested\<rparr>)"
    using Cons.prems by (simp add: setInterestState_def)
  have "getSpaceID (store idx1) sp = Inr sid"
    using Cons.prems by (simp add: idx1_def getSpaceID_def)
  from Cons.IH [OF this] have "request_each idx1 sp wanted =
     (None, idx1\<lparr>store := (store idx1)\<lparr>interest := request_all sid (interest (store idx1)) wanted\<rparr>,
                calls := calls idx1 @ request_calls sp wanted\<rparr>)" .
  then show ?case
    by (simp add: s idx1_def request_all_simps request_calls_def)
qed

lemma requestDocuments_registered:
  assumes "getSpaceID (store idx) sp = Inr sid"
  shows "requestDocuments cfg env idx sp wanted =
     (publish_result env,
      idx\<lparr>store := (store idx)\<lparr>interest := request_all sid (interest (store idx)) wanted\<rparr>,
          calls := calls idx @ request_calls sp wanted @
            [Publish (Topic cfg @ ''.document.request'') \<lparr>dr_Space = sp, Wanted = wanted\<rparr>]\<rparr>)"
  by (simp add: requestDocuments_def request_each_registered [OF assms])

lemma getInterestList_registered:
  "getInterestList db sp = Inr interests \<Longrightarrow> \<exists>sid. getSpaceID db sp = Inr sid"
  by (auto simp: getInterestList_def split: sum.splits)

lemma request_step_requests:
  assumes sid: "getSpaceID (store idx) sp = Inr sid"
    and want: "0 < docsToRequest cfg interests"
  shows "request_step cfg env idx sp interests =
     (idx\<lparr>store := (store idx)\<lparr>interest := request_all sid (interest (store idx))
                       (take (nat (docsToRequest cfg interests)) (pendingIDs interests))\<rparr>,
          calls := calls idx @
            request_calls sp (take (nat (docsToRequest cfg interests)) (pendingIDs interests)) @
            [Publish (Topic cfg @ ''.document.request'')
               \<lparr>dr_Space = sp,
                Wanted = take (nat (docsToRequest cfg interests)) (pendingIDs interests)\<rparr>],
          lastDocumentRequest :=
            (if publish_result env = None then now_requested env else lastDocumentRequest idx)\<rparr>,
      if publish_result env = None
      then count_state requested interests + docsToRequest cfg interests
      else count_state requested interests)"
  using want
  by (cases "publish_result env")
     (simp_all add: request_step_def Let_def requestDocuments_registered [OF sid])

lemma request_step_idle:
  assumes "\<not> 0 < docsToRequest cfg interests"
  shows "request_step cfg env idx sp interests = (idx, count_state requested interests)"
  using assms by (simp add: request_step_def Let_def)

lemma length_pendingIDs: "int (length (pendingIDs interests)) = count_state pending interests"
  by (simp add: pendingIDs_def count_state_def)

lemma length_wanted:
  assumes "0 < docsToRequest cfg interests"
  shows "int (length (take (nat (docsToRequest cfg interests)) (pendingIDs interests)))
           = docsToRequest cfg interests"
proof -
  have "docsToRequest cfg interests \<le> int (length (pendingIDs interests))"
    by (simp add: docsToRequest_def length_pendingIDs)
  with assms show ?thesis by simp
qed

subsection \<open>The cycle, case by case, and as a sequence of store calls\<close>

lemma runUpdateCycle_work_remains:
  assumes list: "getInterestList (store idx) sp = Inr interests"
    and remains: "\<not> (count_state pending interests = 0 \<and>
                      snd (request_step cfg env idx sp interests) = 0)"
  shows "runUpdateCycle cfg env idx sp =
     (if MaxDocumentWait cfg \<noteq> 0 \<and>
         lastDocumentRequest (fst (request_step cfg env idx sp interests)) + MaxDocumentWait cfg
           < now_checked env
      then ((fst (request_step cfg env idx sp interests))
              \<lparr>store := snd (resetRequested
                               (store (fst (request_step cfg env idx sp interests))) sp),
               calls := calls (fst (request_step cfg env idx sp interests)) @
                          [ResetRequested sp]\<rparr>,
            length interests)
      else (fst (request_step cfg env idx sp interests), length interests))"
  using remains
  by (cases "request_step cfg env idx sp interests")
     (auto simp: runUpdateCycle_def list Let_def)

lemma runUpdateCycle_all_served:
  assumes list: "getInterestList (store idx) sp = Inr interests"
    and none: "count_state pending interests = 0" "count_state requested interests = 0"
  shows "runUpdateCycle cfg env idx sp =
     (case commitFetched idx sp of
        (Some e, idx2) \<Rightarrow> (idx2, length interests)
      | (None, idx2) \<Rightarrow> (snd (requestNextChunk cfg env idx2 sp), length interests))"
proof -
  have "\<not> 0 < docsToRequest cfg interests"
    using none by (simp add: docsToRequest_def)
  then have "request_step cfg env idx sp interests = (idx, 0)"
    using none by (simp add: request_step_idle)
  then show ?thesis
    using none by (simp add: runUpdateCycle_def list Let_def)
qed

lemma request_each_path:
  "rtranclp (step cfg ra) (store idx, sp, wanted) (store (snd (request_each idx sp wanted)), sp, [])"
proof (induction wanted arbitrary: idx)
  case Nil
  show ?case by simp
next
  case (Cons d wanted)
  obtain e db' where s: "setInterestState (store idx) sp d requested = (e, db')"
    by (cases "setInterestState (store idx) sp d requested") auto
  define idx1 where "idx1 = idx\<lparr>store := db', calls := calls idx @ [SetInterestState sp d requested]\<rparr>"
  have one: "step cfg ra (store idx, sp, d # wanted) (store idx1, sp, wanted)"
    using step.request [OF s] by (simp add: idx1_def)
  show ?case
  proof (cases e)
    case None
    then have "request_each idx sp (d # wanted) = request_each idx1 sp wanted"
      using s by (simp add: idx1_def)
    with Cons.IH [of idx1] one show ?thesis
      by (simp add: converse_rtranclp_into_rtranclp)
  next
    case (Some err)
    then have "request_each idx sp (d # wanted) = (Some err, idx1)"
      using s by (simp add: idx1_def)
    moreover have "step cfg ra (store idx1, sp, wanted) (store idx1, sp, [])"
      by (rule step.stop)
    ultimately show ?thesis
      using one by (simp add: converse_rtranclp_into_rtranclp)
  qed
qed

lemma requestDocuments_store:
  "store (snd (requestDocuments cfg env idx sp wanted)) = store (snd (request_each idx sp wanted))"
  by (cases "request_each idx sp wanted") (auto simp: requestDocuments_def split: option.splits)

lemma request_step_path:
  assumes list: "getInterestList (store idx) sp = Inr interests"
  shows "\<exists>sp1. rtranclp (step cfg ra) (store idx, sp0, [])
             (store (fst (request_step cfg env idx sp interests)), sp1, [])"
proof (cases "0 < docsToRequest cfg interests")
  case False
  then have "request_step cfg env idx sp interests = (idx, count_state requested interests)"
    by (rule request_step_idle)
  then show ?thesis by auto
next
  case True
  define wanted where "wanted = take (nat (docsToRequest cfg interests)) (pendingIDs interests)"
  have "step cfg ra (store idx, sp0, []) (store idx, sp, wanted)"
    unfolding wanted_def using list True by (rule step.plan)
  moreover have "rtranclp (step cfg ra) (store idx, sp, wanted)
      (store (snd (request_each idx sp wanted)), sp, [])"
    by (rule request_each_path)
  moreover have "store (fst (request_step cfg env idx sp interests))
      = store (snd (request_each idx sp wanted))"
    using True requestDocuments_store [of cfg env idx sp wanted]
    by (cases "requestDocuments cfg env idx sp wanted")
       (auto simp: request_step_def Let_def wanted_def split: option.splits)
  ultimately show ?thesis
    by (metis converse_rtranclp_into_rtranclp)
qed

lemma cycle_path:
  "\<exists>sp1. rtranclp (step cfg ra) (store idx, sp0, [])
           (store (fst (runUpdateCycle cfg env idx sp)), sp1, [])"
proof (cases "getInterestList (store idx) sp")
  case (Inl e)
  then show ?thesis by (auto simp: runUpdateCycle_def)
next
  case (Inr interests)
  define idx1 where "idx1 = fst (request_step cfg env idx sp interests)"
  from request_step_path [OF Inr, of cfg ra sp0 env] obtain sp1 where
    p1: "rtranclp (step cfg ra) (store idx, sp0, []) (store idx1, sp1, [])"
    by (auto simp: idx1_def)
  have "\<exists>db'. store (fst (runUpdateCycle cfg env idx sp)) = db' \<and>
          rtranclp (step cfg ra) (store idx1, sp1, []) (db', sp1, [])"
  proof (cases "count_state pending interests = 0 \<and>
                snd (request_step cfg env idx sp interests) = 0")
    case False
    obtain e db' where r: "resetRequested (store idx1) sp = (e, db')"
      by (cases "resetRequested (store idx1) sp") auto
    have "step cfg ra (store idx1, sp1, []) (db', sp1, [])"
      using r by (rule step.reset)
    then show ?thesis
      using runUpdateCycle_work_remains [OF Inr False] r
      by (auto simp: idx1_def [symmetric])
  next
    case True
    obtain n where rs: "request_step cfg env idx sp interests = (idx1, n)"
      by (cases "request_step cfg env idx sp interests") (auto simp: idx1_def)
    obtain e db2 where c: "commitInterestList (store idx1) sp = (e, db2)"
      by (cases "commitInterestList (store idx1) sp") auto
    have c1: "step cfg ra (store idx1, sp1, []) (db2, sp1, [])"
      using c by (rule step.commit)
    show ?thesis
    proof (cases e)
      case (Some err)
      then have "store (fst (runUpdateCycle cfg env idx sp)) = db2"
        using True rs c by (simp add: runUpdateCycle_def Inr Let_def commitFetched_def)
      with c1 show ?thesis by auto
    next
      case None
      define idx2 where "idx2 = idx1\<lparr>store := db2, calls := calls idx1 @ [CommitInterestList sp]\<rparr>"
      have run: "fst (runUpdateCycle cfg env idx sp) = snd (requestNextChunk cfg env idx2 sp)"
        using True rs c None
        by (simp add: runUpdateCycle_def Inr Let_def commitFetched_def idx2_def)
      have "store (snd (requestNextChunk cfg env idx2 sp)) = db2 \<or>
            (\<exists>u::IndexUpdate. store (snd (requestNextChunk cfg env idx2 sp))
                   = snd (setInterestList (now_listed env) db2 (iu_Space u) (Updates u)))"
      proof (cases "getInterestListState db2 sp")
        case (Inl err)
        then show ?thesis by (simp add: requestNextChunk_def idx2_def)
      next
        case st: (Inr st)
        show ?thesis
        proof (cases "request_result env")
          case (Inl err)
          then show ?thesis by (simp add: requestNextChunk_def idx2_def st Let_def)
        next
          case (Inr u)
          have "store (snd (requestNextChunk cfg env idx2 sp))
                   = snd (setInterestList (now_listed env) db2 (iu_Space u) (Updates u))"
            by (cases "setInterestList (now_listed env) db2 (iu_Space u) (Updates u)")
               (simp add: requestNextChunk_def idx2_def st Inr Let_def)
          then show ?thesis by blast
        qed
      qed
      then show ?thesis
      proof
        assume "store (snd (requestNextChunk cfg env idx2 sp)) = db2"
        with c1 run show ?thesis by auto
      next
        assume "\<exists>u::IndexUpdate. store (snd (requestNextChunk cfg env idx2 sp))
                   = snd (setInterestList (now_listed env) db2 (iu_Space u) (Updates u))"
        then obtain u :: IndexUpdate where u: "store (snd (requestNextChunk cfg env idx2 sp))
                   = snd (setInterestList (now_listed env) db2 (iu_Space u) (Updates u))"
          by blast
        obtain e' db3 where l: "setInterestList (now_listed env) db2 (iu_Space u) (Updates u) = (e', db3)"
          by (cases "setInterestList (now_listed env) db2 (iu_Space u) (Updates u)") auto
        have "step cfg ra (db2, sp1, []) (db3, sp1, [])"
          using l by (rule step.newlist)
        with c1 have "rtranclp (step cfg ra) (store idx1, sp1, []) (db3, sp1, [])"
          by auto
        then show ?thesis using run u l by simp
      qed
    qed
  qed
  with p1 show ?thesis
    by (metis rtranclp_trans)
qed

subsection \<open>Resets, and the cycle of a served chunk\<close>

lemma request_each_no_reset:
  "filter is_reset (calls (snd (request_each idx sp wanted))) = filter is_reset (calls idx)"
proof (induction wanted arbitrary: idx)
  case Nil
  show ?case by simp
next
  case (Cons d wanted)
  obtain e db' where s: "setInterestState (store idx) sp d requested = (e, db')"
    by (cases "setInterestState (store idx) sp d requested") auto
  show ?case
  proof (cases e)
    case None
    with s Cons.IH [of "idx\<lparr>store := db', calls := calls idx @ [SetInterestState sp d requested]\<rparr>"]
    show ?thesis by (simp add: is_reset_def)
  next
    case (Some err)
    with s show ?thesis by (simp add: is_reset_def)
  qed
qed

lemma request_step_no_reset:
  "filter is_reset (calls (fst (request_step cfg env idx sp interests)))
     = filter is_reset (calls idx)"
proof (cases "0 < docsToRequest cfg interests")
  case False
  then show ?thesis by (simp add: request_step_idle)
next
  case True
  define wanted where "wanted = take (nat (docsToRequest cfg interests)) (pendingIDs interests)"
  have "filter is_reset (calls (snd (requestDocuments cfg env idx sp wanted)))
          = filter is_reset (calls idx)"
    using request_each_no_reset [of idx sp wanted]
    by (cases "request_each idx sp wanted")
       (auto simp: requestDocuments_def is_reset_def split: option.splits)
  then show ?thesis
    using True
    by (cases "requestDocuments cfg env idx sp wanted")
       (auto simp: request_step_def Let_def wanted_def split: option.splits)
qed

lemma requestNextChunk_no_reset:
  "filter is_reset (calls (snd (requestNextChunk cfg env idx sp))) = filter is_reset (calls idx)"
  by (auto simp: requestNextChunk_def Let_def is_reset_def split: sum.splits prod.splits)

lemma no_reset_without_wait:
  assumes "MaxDocumentWait cfg = 0"
  shows "filter is_reset (calls (fst (runUpdateCycle cfg env idx sp)))
           = filter is_reset (calls idx)"
proof (cases "getInterestList (store idx) sp")
  case (Inl e)
  then show ?thesis by (simp add: runUpdateCycle_def)
next
  case (Inr interests)
  obtain idx1 n where rs: "request_step cfg env idx sp interests = (idx1, n)"
    by (cases "request_step cfg env idx sp interests") auto
  have r1: "filter is_reset (calls idx1) = filter is_reset (calls idx)"
    using request_step_no_reset [of cfg env idx sp interests] rs by simp
  show ?thesis
  proof (cases "count_state pending interests = 0 \<and> n = 0")
    case False
    then show ?thesis
      using assms rs r1 by (auto simp: runUpdateCycle_def Inr Let_def)
  next
    case True
    obtain e db2 where c: "commitInterestList (store idx1) sp = (e, db2)"
      by (cases "commitInterestList (store idx1) sp") auto
    show ?thesis
      using True rs r1 c
        requestNextChunk_no_reset
          [of cfg env "idx1\<lparr>store := db2, calls := calls idx1 @ [CommitInterestList sp]\<rparr>" sp]
      by (cases e) (auto simp: runUpdateCycle_def Inr Let_def commitFetched_def is_reset_def)
  qed
qed

lemma resetRequested_registered:
  "getSpaceID db sp = Inr sid \<Longrightarrow>
   resetRequested db sp =
     (None, db\<lparr>interest := map (\<lambda>i. if i_state i = requested \<and> i_spaceID i = sid
                                     then i\<lparr>i_state := pending\<rparr> else i) (interest db)\<rparr>)"
  by (simp add: resetRequested_def)

lemma request_step_spaces:
  "spaces (store (fst (request_step cfg env idx sp interests))) = spaces (store idx)"
proof -
  have e: "\<And>idx wanted. spaces (store (snd (request_each idx sp wanted))) = spaces (store idx)"
  proof -
    fix idx wanted
    show "spaces (store (snd (request_each idx sp wanted))) = spaces (store idx)"
    proof (induction wanted arbitrary: idx)
      case Nil
      show ?case by simp
    next
      case (Cons d wanted)
      obtain e db' where s: "setInterestState (store idx) sp d requested = (e, db')"
        by (cases "setInterestState (store idx) sp d requested") auto
      from setInterestState_ids [OF s] have "spaces db' = spaces (store idx)" .
      with s Cons.IH [of "idx\<lparr>store := db', calls := calls idx @ [SetInterestState sp d requested]\<rparr>"]
      show ?case by (cases e) auto
    qed
  qed
  show ?thesis
  proof (cases "0 < docsToRequest cfg interests")
    case False
    then show ?thesis by (simp add: request_step_idle)
  next
    case True
    then show ?thesis
      using e [of idx "take (nat (docsToRequest cfg interests)) (pendingIDs interests)"]
        requestDocuments_store [of cfg env idx sp
          "take (nat (docsToRequest cfg interests)) (pendingIDs interests)"]
      by (cases "requestDocuments cfg env idx sp
                   (take (nat (docsToRequest cfg interests)) (pendingIDs interests))")
         (auto simp: request_step_def Let_def split: option.splits)
  qed
qed


lemma commit_registered_once:
  assumes once: "length (filter (\<lambda>s. space s = sp) (spaces db)) = 1"
  shows "\<exists>st db1. commitInterestList db sp = (None, db1) \<and>
           getInterestListState db1 sp = Inr st \<and>
           cursor db1 sp = [(LastUpdated st, LastUpdatedDocID st)]"
proof -
  from once obtain s where s: "filter (\<lambda>s. space s = sp) (spaces db) = [s]"
    by (cases "filter (\<lambda>s. space s = sp) (spaces db)") auto
  show ?thesis
  proof (cases "order_limit_1 (commit_rows db sp)")
    case None
    then have "commitInterestList db sp = (None, db)"
      by (simp add: commitInterestList_def)
    then show ?thesis
      using s by (simp add: getInterestListState_def cursor_def)
  next
    case (Some p)
    define upd :: "spaces_row \<Rightarrow> spaces_row" where "upd = (\<lambda>s. if space s = sp
        then s\<lparr>lastUpdatedAtNanos := fst p, lastUpdatedDocID := snd p\<rparr> else s)"
    have c: "commitInterestList db sp = (None, db\<lparr>spaces := map upd (spaces db)\<rparr>)"
      using Some once by (simp add: commitInterestList_def upd_def)
    have "filter (\<lambda>s. space s = sp) (map upd (spaces db))
            = map upd (filter (\<lambda>s. space s = sp) (spaces db))"
      by (rule filter_map_keep) (simp add: upd_def)
    then have f: "filter (\<lambda>s. space s = sp) (map upd (spaces db)) = [upd s]"
      by (simp add: s)
    show ?thesis
      unfolding c by (simp add: getInterestListState_def cursor_def f)
  qed
qed


subsection \<open>The claims about the cycle\<close>

text \<open>
  C4. A cycle that finds \<open>P\<close> pending and \<open>R\<close> requested rows and has
  \<open>want = min(P, MaxOutstanding - R) > 0\<close> requests exactly \<open>want\<close> documents, the
  first \<open>want\<close> pending ones of the interest list: it sets each of their rows to
  \<open>requested\<close>, one call per document, and only then publishes one
  \<open>DocumentRequest\<close> that names them (a reset may follow, nothing else). The cycle
  is a sequence of store calls, and at every observation point that store calls
  of the cycle and of the sink can reach, in any interleaving, from a store where
  no row of a space is requested (as after \<open>clearInterestList\<close>), the number of
  requested rows of that space is at most \<open>MaxOutstanding\<close>.
\<close>

theorem requested_never_exceeds_MaxOutstanding:
  assumes list: "getInterestList (store idx) sp = Inr interests"
    and want: "0 < docsToRequest cfg interests"
    and wanted: "wanted = take (nat (docsToRequest cfg interests)) (pendingIDs interests)"
    and start: "unique_interest (interest db0)" "count_requested db0 sid = 0"
    and reach: "rtranclp (step cfg ra) (db0, sp0, []) (db, sp1, todo)"
  shows "docsToRequest cfg interests
           = min (count_state pending interests)
                 (int (MaxOutstanding cfg) - count_state requested interests) \<and>
         int (length wanted) = docsToRequest cfg interests \<and>
         (\<exists>sid'. getSpaceID (store idx) sp = Inr sid' \<and>
            interest (store (fst (request_step cfg env idx sp interests)))
              = map (\<lambda>i. if i_spaceID i = sid' \<and> i_docID i \<in> set wanted
                           then i\<lparr>i_state := requested\<rparr> else i)
                  (interest (store idx))) \<and>
         calls (fst (runUpdateCycle cfg env idx sp))
           = calls idx @ request_calls sp wanted @
             [Publish (Topic cfg @ ''.document.request'') \<lparr>dr_Space = sp, Wanted = wanted\<rparr>] @
             (if MaxDocumentWait cfg \<noteq> 0 \<and>
                 (if publish_result env = None then now_requested env
                  else lastDocumentRequest idx) + MaxDocumentWait cfg < now_checked env
              then [ResetRequested sp] else []) \<and>
         (\<exists>sp2. rtranclp (step cfg ra) (store idx, sp3, [])
                  (store (fst (runUpdateCycle cfg env idx sp)), sp2, [])) \<and>
         count_requested db sid \<le> MaxOutstanding cfg"
proof -
  from getInterestList_registered [OF list] obtain sid'
    where sid': "getSpaceID (store idx) sp = Inr sid'" by blast
  note rs = request_step_requests [OF sid' want, of env, folded wanted]
  have remains: "\<not> (count_state pending interests = 0 \<and>
                      snd (request_step cfg env idx sp interests) = 0)"
    using want by (simp add: docsToRequest_def)
  have a: "docsToRequest cfg interests
           = min (count_state pending interests)
                 (int (MaxOutstanding cfg) - count_state requested interests)"
    by (simp add: docsToRequest_def)
  have b: "int (length wanted) = docsToRequest cfg interests"
    unfolding wanted by (rule length_wanted [OF want])
  have c: "\<exists>sid'. getSpaceID (store idx) sp = Inr sid' \<and>
            interest (store (fst (request_step cfg env idx sp interests)))
              = map (\<lambda>i. if i_spaceID i = sid' \<and> i_docID i \<in> set wanted
                           then i\<lparr>i_state := requested\<rparr> else i)
                  (interest (store idx))"
    using sid' by (simp add: rs request_all_map)
  have d: "calls (fst (runUpdateCycle cfg env idx sp))
           = calls idx @ request_calls sp wanted @
             [Publish (Topic cfg @ ''.document.request'') \<lparr>dr_Space = sp, Wanted = wanted\<rparr>] @
             (if MaxDocumentWait cfg \<noteq> 0 \<and>
                 (if publish_result env = None then now_requested env
                  else lastDocumentRequest idx) + MaxDocumentWait cfg < now_checked env
              then [ResetRequested sp] else [])"
    unfolding runUpdateCycle_work_remains [OF list remains] by (simp add: rs)
  have e: "\<exists>sp2. rtranclp (step cfg ra) (store idx, sp3, [])
                  (store (fst (runUpdateCycle cfg env idx sp)), sp2, [])"
    by (rule cycle_path)
  have f: "count_requested db sid \<le> MaxOutstanding cfg"
    using reach start by (rule reachable_bound)
  from a b c d e f show ?thesis by (intro conjI)
qed

text \<open>
  Scenario 2 of the spec, first cycle: \<open>MaxOutstanding = 2\<close> and the chunk
  \<open>a, b, c\<close>, all pending. The cycle sets \<open>a\<close> and \<open>b\<close> to \<open>requested\<close>, then
  publishes the request for them.
\<close>

theorem requested_never_exceeds_MaxOutstanding_witness:
  "getInterestList (store idx_chunk) ''wp''
     = Inr [\<lparr>DocID = ''a'', State = pending\<rparr>, \<lparr>DocID = ''b'', State = pending\<rparr>,
            \<lparr>DocID = ''c'', State = pending\<rparr>] \<and>
   docsToRequest cfg_two
     [\<lparr>DocID = ''a'', State = pending\<rparr>, \<lparr>DocID = ''b'', State = pending\<rparr>,
      \<lparr>DocID = ''c'', State = pending\<rparr>] = 2 \<and>
   unique_interest (interest db_chunk) \<and> count_requested db_chunk 1 = 0 \<and>
   calls (fst (runUpdateCycle cfg_two env_news idx_chunk ''wp'')) =
     [SetInterestState ''wp'' ''a'' requested, SetInterestState ''wp'' ''b'' requested,
      Publish ''leta.document.request'' \<lparr>dr_Space = ''wp'', Wanted = [''a'', ''b'']\<rparr>] \<and>
   interest (store (fst (runUpdateCycle cfg_two env_news idx_chunk ''wp''))) =
     [\<lparr>i_spaceID = 1, i_docID = ''a'', i_state = requested\<rparr>,
      \<lparr>i_spaceID = 1, i_docID = ''b'', i_state = requested\<rparr>,
      \<lparr>i_spaceID = 1, i_docID = ''c'', i_state = pending\<rparr>] \<and>
   count_requested (store (fst (runUpdateCycle cfg_two env_news idx_chunk ''wp''))) 1
     \<le> MaxOutstanding cfg_two"
proof -
  define interests where "interests =
    [\<lparr>DocID = ''a'', State = pending\<rparr>, \<lparr>DocID = ''b'', State = pending\<rparr>,
     \<lparr>DocID = ''c'', State = pending\<rparr>]"
  have list: "getInterestList (store idx_chunk) ''wp'' = Inr interests"
    by (simp add: getInterestList_def getSpaceID_def idx_chunk_def db_chunk_def interests_def)
  have two: "docsToRequest cfg_two interests = 2"
    by (simp add: docsToRequest_def count_state_def interests_def cfg_two_def)
  then have want: "0 < docsToRequest cfg_two interests"
    by simp
  have wanted: "[''a'', ''b''] = take (nat (docsToRequest cfg_two interests)) (pendingIDs interests)"
    by (simp add: two) (simp add: pendingIDs_def interests_def)
  have u: "unique_interest (interest db_chunk)"
    by (simp add: unique_interest_def db_chunk_def)
  have z: "count_requested db_chunk 1 = 0"
    by (simp add: count_requested_def db_chunk_def)
  obtain sp2 where path: "rtranclp (step cfg_two sqlite_rows_affected) (db_chunk, ''wp'', [])
      (store (fst (runUpdateCycle cfg_two env_news idx_chunk ''wp'')), sp2, [])"
    using cycle_path [of cfg_two sqlite_rows_affected idx_chunk "''wp''" env_news "''wp''"]
    by (auto simp: idx_chunk_def)
  note all = requested_never_exceeds_MaxOutstanding [OF list want wanted u z path, of env_news]
  have calls: "calls (fst (runUpdateCycle cfg_two env_news idx_chunk ''wp'')) =
     [SetInterestState ''wp'' ''a'' requested, SetInterestState ''wp'' ''b'' requested,
      Publish ''leta.document.request'' \<lparr>dr_Space = ''wp'', Wanted = [''a'', ''b'']\<rparr>]"
    using all by (simp add: request_calls_def cfg_two_def env_news_def idx_chunk_def)
  have bound: "count_requested (store (fst (runUpdateCycle cfg_two env_news idx_chunk ''wp''))) 1
     \<le> MaxOutstanding cfg_two"
    using all by simp
  have rows: "interest (store (fst (runUpdateCycle cfg_two env_news idx_chunk ''wp''))) =
     [\<lparr>i_spaceID = 1, i_docID = ''a'', i_state = requested\<rparr>,
      \<lparr>i_spaceID = 1, i_docID = ''b'', i_state = requested\<rparr>,
      \<lparr>i_spaceID = 1, i_docID = ''c'', i_state = pending\<rparr>]"
    by (simp add: runUpdateCycle_def request_step_def docsToRequest_def count_state_def
      pendingIDs_def requestDocuments_def setInterestState_def update_interest_state_def
      getInterestList_def getSpaceID_def
      idx_chunk_def db_chunk_def cfg_two_def env_news_def Let_def)
  show ?thesis
    using list two u z calls rows bound unfolding interests_def by (intro conjI)
qed

text \<open>
  C6, as amended. When the interest list of the space has no pending and no
  requested row, the cycle commits, reads the position of the space after the
  commit, and sends one request on \<open>index.request\<close> with the space, \<open>fromTime\<close> and
  \<open>afterDocument\<close> of that position, \<open>limit = ChunkSize\<close> and the deadline
  \<open>MaxInterestWait\<close>. The list of the reply becomes the interest list of the space
  that the reply names: \<open>setInterestList\<close> is called with the reply's \<open>space\<close>, not
  with the space of the request. When the request fails nothing is installed.
  The space is taken to be registered once, as the schema has it.
\<close>

theorem next_chunk_installed_for_reply_space:
  assumes list: "getInterestList (store idx) sp = Inr interests"
    and served: "count_state pending interests = 0" "count_state requested interests = 0"
    and once: "length (filter (\<lambda>s. space s = sp) (spaces (store idx))) = 1"
  shows "\<exists>st db1.
           commitInterestList (store idx) sp = (None, db1) \<and>
           getInterestListState db1 sp = Inr st \<and>
           cursor db1 sp = [(LastUpdated st, LastUpdatedDocID st)] \<and>
           fst (runUpdateCycle cfg env idx sp) =
             (case request_result env of
                Inl e \<Rightarrow>
                  idx\<lparr>store := db1,
                      calls := calls idx @
                        [CommitInterestList sp,
                         Request (Topic cfg @ ''.index.request'')
                           \<lparr>rq_Space = sp, FromTime = LastUpdated st,
                            AfterDocument = LastUpdatedDocID st, Limit = ChunkSize cfg\<rparr>
                           (MaxInterestWait cfg)]\<rparr>
              | Inr update \<Rightarrow>
                  idx\<lparr>store := snd (setInterestList (now_listed env) db1
                                      (iu_Space update) (Updates update)),
                      calls := calls idx @
                        [CommitInterestList sp,
                         Request (Topic cfg @ ''.index.request'')
                           \<lparr>rq_Space = sp, FromTime = LastUpdated st,
                            AfterDocument = LastUpdatedDocID st, Limit = ChunkSize cfg\<rparr>
                           (MaxInterestWait cfg),
                         SetInterestList (iu_Space update) (Updates update)]\<rparr>)"
proof -
  from commit_registered_once [OF once] obtain st db1
    where c: "commitInterestList (store idx) sp = (None, db1)"
      and st: "getInterestListState db1 sp = Inr st"
      and cur: "cursor db1 sp = [(LastUpdated st, LastUpdatedDocID st)]"
    by blast
  have "fst (runUpdateCycle cfg env idx sp) =
      snd (requestNextChunk cfg env
             (idx\<lparr>store := db1, calls := calls idx @ [CommitInterestList sp]\<rparr>) sp)"
    by (simp add: runUpdateCycle_all_served [OF list served] commitFetched_def c)
  also have "\<dots> = (case request_result env of
                Inl e \<Rightarrow>
                  idx\<lparr>store := db1,
                      calls := calls idx @
                        [CommitInterestList sp,
                         Request (Topic cfg @ ''.index.request'')
                           \<lparr>rq_Space = sp, FromTime = LastUpdated st,
                            AfterDocument = LastUpdatedDocID st, Limit = ChunkSize cfg\<rparr>
                           (MaxInterestWait cfg)]\<rparr>
              | Inr update \<Rightarrow>
                  idx\<lparr>store := snd (setInterestList (now_listed env) db1
                                      (iu_Space update) (Updates update)),
                      calls := calls idx @
                        [CommitInterestList sp,
                         Request (Topic cfg @ ''.index.request'')
                           \<lparr>rq_Space = sp, FromTime = LastUpdated st,
                            AfterDocument = LastUpdatedDocID st, Limit = ChunkSize cfg\<rparr>
                           (MaxInterestWait cfg),
                         SetInterestList (iu_Space update) (Updates update)]\<rparr>)"
    by (auto simp: requestNextChunk_def st Let_def split: sum.splits prod.splits)
  finally show ?thesis
    using c st cur by blast
qed

text \<open>
  The cycle of \<open>wp\<close> on two idle spaces, with a reply that names \<open>news\<close>.
\<close>

theorem next_chunk_installed_for_reply_space_witness:
  "getInterestList (store idx_idle) ''wp'' = Inr [] \<and>
   length (filter (\<lambda>s. space s = ''wp'') (spaces (store idx_idle))) = 1 \<and>
   fst (runUpdateCycle cfg_two env_news idx_idle ''wp'') =
     idx_idle\<lparr>store := snd (setInterestList 10002 db_idle ''news'' [''n'']),
              calls := [CommitInterestList ''wp'',
                        Request ''leta.index.request''
                          \<lparr>rq_Space = ''wp'', FromTime = 10, AfterDocument = ''k'', Limit = 3\<rparr>
                          5000,
                        SetInterestList ''news'' [''n'']]\<rparr>"
proof -
  have list: "getInterestList (store idx_idle) ''wp'' = Inr []"
    by (simp add: getInterestList_def getSpaceID_def idx_idle_def db_idle_def)
  have p: "count_state pending [] = 0" and r: "count_state requested [] = 0"
    by (simp_all add: count_state_def)
  have once: "length (filter (\<lambda>s. space s = ''wp'') (spaces (store idx_idle))) = 1"
    by (simp add: idx_idle_def db_idle_def)
  from next_chunk_installed_for_reply_space [OF list p r once, of cfg_two env_news] obtain st db1 where
    c: "commitInterestList (store idx_idle) ''wp'' = (None, db1)"
    and st: "getInterestListState db1 ''wp'' = Inr st"
    and run: "fst (runUpdateCycle cfg_two env_news idx_idle ''wp'') =
             (case request_result env_news of
                Inl e \<Rightarrow>
                  idx_idle\<lparr>store := db1,
                      calls := calls idx_idle @
                        [CommitInterestList ''wp'',
                         Request (Topic cfg_two @ ''.index.request'')
                           \<lparr>rq_Space = ''wp'', FromTime = LastUpdated st,
                            AfterDocument = LastUpdatedDocID st, Limit = ChunkSize cfg_two\<rparr>
                           (MaxInterestWait cfg_two)]\<rparr>
              | Inr update \<Rightarrow>
                  idx_idle\<lparr>store := snd (setInterestList (now_listed env_news) db1
                                      (iu_Space update) (Updates update)),
                      calls := calls idx_idle @
                        [CommitInterestList ''wp'',
                         Request (Topic cfg_two @ ''.index.request'')
                           \<lparr>rq_Space = ''wp'', FromTime = LastUpdated st,
                            AfterDocument = LastUpdatedDocID st, Limit = ChunkSize cfg_two\<rparr>
                           (MaxInterestWait cfg_two),
                         SetInterestList (iu_Space update) (Updates update)]\<rparr>)"
    by blast
  have "commitInterestList (store idx_idle) ''wp'' = (None, db_idle)"
    by (simp add: commitInterestList_def commit_rows_def idx_idle_def db_idle_def)
  with c have db1: "db1 = db_idle" by simp
  have "getInterestListState db_idle ''wp''
      = Inr \<lparr>CreatedAt = 100, LastUpdated = 10, LastUpdatedDocID = ''k''\<rparr>"
    by (simp add: getInterestListState_def db_idle_def)
  with st db1 have st': "st = \<lparr>CreatedAt = 100, LastUpdated = 10, LastUpdatedDocID = ''k''\<rparr>"
    by simp
  have "fst (runUpdateCycle cfg_two env_news idx_idle ''wp'') =
     idx_idle\<lparr>store := snd (setInterestList 10002 db_idle ''news'' [''n'']),
              calls := [CommitInterestList ''wp'',
                        Request ''leta.index.request''
                          \<lparr>rq_Space = ''wp'', FromTime = 10, AfterDocument = ''k'', Limit = 3\<rparr>
                          5000,
                        SetInterestList ''news'' [''n'']]\<rparr>"
    unfolding run db1 st' by (simp add: env_news_def cfg_two_def idx_idle_def)
  with list once show ?thesis by (intro conjI)
qed


text \<open>
  C6 as stated fails: the request was for \<open>wp\<close>, the reply names \<open>news\<close>, and the
  list is installed as the interest list of \<open>news\<close>; the list of \<open>wp\<close> stays empty.
\<close>

theorem next_chunk_other_space_counterexample:
  "getInterestList (store idx_idle) ''wp'' = Inr [] \<and>
   request_result env_news = Inr \<lparr>iu_Space = ''news'', Updates = [''n'']\<rparr> \<and>
   calls (fst (runUpdateCycle cfg_two env_news idx_idle ''wp'')) =
     [CommitInterestList ''wp'',
      Request ''leta.index.request''
        \<lparr>rq_Space = ''wp'', FromTime = 10, AfterDocument = ''k'', Limit = 3\<rparr> 5000,
      SetInterestList ''news'' [''n'']] \<and>
   getInterestList (store (fst (runUpdateCycle cfg_two env_news idx_idle ''wp''))) ''wp'' = Inr [] \<and>
   getInterestList (store (fst (runUpdateCycle cfg_two env_news idx_idle ''wp''))) ''news''
     = Inr [\<lparr>DocID = ''n'', State = pending\<rparr>]"
  by (simp add: runUpdateCycle_def request_step_def docsToRequest_def count_state_def
      commitFetched_def commitInterestList_def commit_rows_def requestNextChunk_def
      getInterestListState_def setInterestList_def getInterestList_def getSpaceID_def
      idx_idle_def db_idle_def cfg_two_def env_news_def Let_def)


text \<open>
  C7. When work remains after the request step (a pending row, or a requested
  one): if \<open>MaxDocumentWait > 0\<close> and the time since \<open>lastDocumentRequest\<close> exceeds
  it, the cycle calls \<open>resetRequested\<close> for the space, and the store differs from
  the one before the call only in that the requested rows of that space are
  pending; the pending and served rows and the rows of other spaces are as they
  were. If \<open>MaxDocumentWait\<close> is 0 the cycle ends with the request step, and no
  cycle at all, whatever it finds, calls \<open>resetRequested\<close>.
\<close>

theorem stalled_requests_are_reset:
  assumes list: "getInterestList (store idx) sp = Inr interests"
    and remains: "\<not> (count_state pending interests = 0 \<and>
                      snd (request_step cfg env idx sp interests) = 0)"
    and idx1: "idx1 = fst (request_step cfg env idx sp interests)"
  shows "(0 < MaxDocumentWait cfg \<and>
            MaxDocumentWait cfg < now_checked env - lastDocumentRequest idx1 \<longrightarrow>
          (\<exists>sid. getSpaceID (store idx) sp = Inr sid \<and>
             fst (runUpdateCycle cfg env idx sp) =
               idx1\<lparr>store := (store idx1)\<lparr>interest :=
                       map (\<lambda>i. if i_state i = requested \<and> i_spaceID i = sid
                                 then i\<lparr>i_state := pending\<rparr> else i)
                         (interest (store idx1))\<rparr>,
                    calls := calls idx1 @ [ResetRequested sp]\<rparr>)) \<and>
         (MaxDocumentWait cfg = 0 \<longrightarrow>
            fst (runUpdateCycle cfg env idx sp) = idx1 \<and>
            filter is_reset (calls (fst (runUpdateCycle cfg env' idx' sp')))
              = filter is_reset (calls idx'))"
proof -
  from getInterestList_registered [OF list] obtain sid
    where sid: "getSpaceID (store idx) sp = Inr sid" by blast
  have sid1: "getSpaceID (store idx1) sp = Inr sid"
    using sid request_step_spaces [of cfg env idx sp interests]
    by (simp add: getSpaceID_def idx1)
  note run = runUpdateCycle_work_remains [OF list remains, folded idx1]
  have stalled: "0 < MaxDocumentWait cfg \<and>
            MaxDocumentWait cfg < now_checked env - lastDocumentRequest idx1 \<longrightarrow>
          (\<exists>sid. getSpaceID (store idx) sp = Inr sid \<and>
             fst (runUpdateCycle cfg env idx sp) =
               idx1\<lparr>store := (store idx1)\<lparr>interest :=
                       map (\<lambda>i. if i_state i = requested \<and> i_spaceID i = sid
                                 then i\<lparr>i_state := pending\<rparr> else i)
                         (interest (store idx1))\<rparr>,
                    calls := calls idx1 @ [ResetRequested sp]\<rparr>)"
    using sid by (auto simp: run resetRequested_registered [OF sid1])
  have off: "MaxDocumentWait cfg = 0 \<longrightarrow>
            fst (runUpdateCycle cfg env idx sp) = idx1 \<and>
            filter is_reset (calls (fst (runUpdateCycle cfg env' idx' sp')))
              = filter is_reset (calls idx')"
    using no_reset_without_wait [of cfg env' idx' sp'] by (simp add: run)
  from stalled off show ?thesis by (rule conjI)
qed

text \<open>
  Scenario 3 of the spec: \<open>a\<close> and \<open>b\<close> of \<open>wp\<close> are requested, \<open>c\<close> is served, and
  a requested document of \<open>news\<close> is in the table too; the stall threshold has
  passed. Only \<open>a\<close> and \<open>b\<close> of \<open>wp\<close> go back to \<open>pending\<close>.
\<close>

theorem stalled_requests_are_reset_witness:
  "getInterestList (store idx_waiting) ''wp''
     = Inr [\<lparr>DocID = ''a'', State = requested\<rparr>, \<lparr>DocID = ''b'', State = requested\<rparr>,
            \<lparr>DocID = ''c'', State = served\<rparr>] \<and>
   0 < MaxDocumentWait cfg_two \<and>
   MaxDocumentWait cfg_two < now_checked env_news - lastDocumentRequest idx_waiting \<and>
   fst (runUpdateCycle cfg_two env_news idx_waiting ''wp'') =
     idx_waiting\<lparr>store := db_waiting\<lparr>interest :=
                    [\<lparr>i_spaceID = 1, i_docID = ''a'', i_state = pending\<rparr>,
                     \<lparr>i_spaceID = 1, i_docID = ''b'', i_state = pending\<rparr>,
                     \<lparr>i_spaceID = 1, i_docID = ''c'', i_state = served\<rparr>,
                     \<lparr>i_spaceID = 2, i_docID = ''a'', i_state = requested\<rparr>]\<rparr>,
                 calls := [ResetRequested ''wp'']\<rparr> \<and>
   MaxDocumentWait (cfg_two\<lparr>MaxDocumentWait := 0\<rparr>) = 0 \<and>
   fst (runUpdateCycle (cfg_two\<lparr>MaxDocumentWait := 0\<rparr>) env_news idx_waiting ''wp'')
     = idx_waiting"
proof -
  define interests where "interests =
    [\<lparr>DocID = ''a'', State = requested\<rparr>, \<lparr>DocID = ''b'', State = requested\<rparr>,
     \<lparr>DocID = ''c'', State = served\<rparr>]"
  have list: "getInterestList (store idx_waiting) ''wp'' = Inr interests"
    by (simp add: getInterestList_def getSpaceID_def idx_waiting_def db_waiting_def interests_def)
  have rs: "request_step cfg_two env_news idx_waiting ''wp'' interests = (idx_waiting, 2)"
    by (simp add: request_step_def Let_def docsToRequest_def count_state_def interests_def
        cfg_two_def)
  have remains: "\<not> (count_state pending interests = 0 \<and>
                      snd (request_step cfg_two env_news idx_waiting ''wp'' interests) = 0)"
    by (simp add: rs)
  have idx1: "idx_waiting = fst (request_step cfg_two env_news idx_waiting ''wp'' interests)"
    by (simp add: rs)
  have w: "0 < MaxDocumentWait cfg_two"
    by (simp add: cfg_two_def)
  have t: "MaxDocumentWait cfg_two < now_checked env_news - lastDocumentRequest idx_waiting"
    by (simp add: cfg_two_def env_news_def idx_waiting_def)
  have sid: "getSpaceID (store idx_waiting) ''wp'' = Inr 1"
    by (simp add: getSpaceID_def idx_waiting_def db_waiting_def)
  from stalled_requests_are_reset [OF list remains idx1] w t sid
  have "fst (runUpdateCycle cfg_two env_news idx_waiting ''wp'') =
      idx_waiting\<lparr>store := (store idx_waiting)\<lparr>interest :=
                       map (\<lambda>i. if i_state i = requested \<and> i_spaceID i = 1
                                 then i\<lparr>i_state := pending\<rparr> else i)
                         (interest (store idx_waiting))\<rparr>,
                    calls := calls idx_waiting @ [ResetRequested ''wp'']\<rparr>"
    by auto
  then have run: "fst (runUpdateCycle cfg_two env_news idx_waiting ''wp'') =
     idx_waiting\<lparr>store := db_waiting\<lparr>interest :=
                    [\<lparr>i_spaceID = 1, i_docID = ''a'', i_state = pending\<rparr>,
                     \<lparr>i_spaceID = 1, i_docID = ''b'', i_state = pending\<rparr>,
                     \<lparr>i_spaceID = 1, i_docID = ''c'', i_state = served\<rparr>,
                     \<lparr>i_spaceID = 2, i_docID = ''a'', i_state = requested\<rparr>]\<rparr>,
                 calls := [ResetRequested ''wp'']\<rparr>"
    by (simp add: idx_waiting_def db_waiting_def)
  have rs0: "request_step (cfg_two\<lparr>MaxDocumentWait := 0\<rparr>) env_news idx_waiting ''wp'' interests
      = (idx_waiting, 2)"
    by (simp add: request_step_def Let_def docsToRequest_def count_state_def interests_def
        cfg_two_def)
  have remains0: "\<not> (count_state pending interests = 0 \<and>
      snd (request_step (cfg_two\<lparr>MaxDocumentWait := 0\<rparr>) env_news idx_waiting ''wp'' interests)
        = 0)"
    by (simp add: rs0)
  have idx10: "idx_waiting
      = fst (request_step (cfg_two\<lparr>MaxDocumentWait := 0\<rparr>) env_news idx_waiting ''wp'' interests)"
    by (simp add: rs0)
  have w0: "MaxDocumentWait (cfg_two\<lparr>MaxDocumentWait := 0\<rparr>) = 0"
    by simp
  from stalled_requests_are_reset [OF list remains0 idx10] w0
  have run0: "fst (runUpdateCycle (cfg_two\<lparr>MaxDocumentWait := 0\<rparr>) env_news idx_waiting ''wp'')
      = idx_waiting"
    by blast
  show ?thesis
    using list w t run w0 run0 unfolding interests_def by (intro conjI)
qed


end
